theory Spec2Isabelle
  imports Main
begin

section \<open>Values of the host language and of the columnar engine\<close>

text \<open>
  The marshalling layer of \<^verbatim>\<open>src/flint/arrow.py\<close> sits between Python values and the
  scalars and arrays of the columnar engine (pyarrow).  The engine is an external
  collaborator: the repository only calls \<^verbatim>\<open>pa.scalar\<close>, \<^verbatim>\<open>pa.array\<close>,
  \<^verbatim>\<open>as_py\<close>, \<^verbatim>\<open>to_pylist\<close> and iterates or indexes scalars and arrays.  This section
  fixes the data both sides exchange; the next one the engine operations.

  Floating-point payloads are left out of the value universe: the three float dtypes
  exist as dtypes, but no Python float and no float scalar value is modelled.
\<close>

datatype dtype =
    pa_null | pa_bool
  | pa_int8 | pa_int16 | pa_int32 | pa_int64
  | pa_uint8 | pa_uint16 | pa_uint32 | pa_uint64
  | pa_float16 | pa_float32 | pa_float64
  | pa_string | pa_binary
  | pa_list dtype
  | pa_map dtype dtype
  | pa_struct "(string \<times> dtype) list"

text \<open>
  The payload of a scalar.  Every dtype has the null payload.  A struct payload is
  positional (one child per field of the struct dtype, as the engine stores it); a map
  payload is the sequence of its key/item entries, in physical order.
\<close>

datatype aval =
    ANull | ABool bool | AInt int | AStr string | ABin string
  | AList "aval list"
  | AMap "(aval \<times> aval) list"
  | AStruct "aval list"

datatype arrow_scalar = Scalar (scalar_type: dtype) (scalar_value: aval)

datatype arrow_array = Array (array_type: dtype) (array_values: "aval list")

text \<open>
  Python values.  A \<^verbatim>\<open>dict\<close> is the list of its items in insertion order (keys
  distinct); an instance of a dataclass is its class name with its \<^verbatim>\<open>__dict__\<close>;
  \<open>PScalar\<close> is an engine scalar held by Python code (the composite converters pass
  lists of scalars back to the engine).
\<close>

datatype pyval =
    PNone | PBool bool | PInt int | PStr string | PBytes string
  | PList "pyval list"
  | PTuple "pyval list"
  | PDict "(pyval \<times> pyval) list"
  | PObj string "(string \<times> pyval) list"
  | PScalar arrow_scalar

text \<open>
  What a call can raise.  \<open>ArrowError\<close> stands for the engine's own exceptions
  (\<^verbatim>\<open>ArrowInvalid\<close>, \<^verbatim>\<open>ArrowTypeError\<close>, \<^verbatim>\<open>OverflowError\<close>).  \<open>Unmodelled\<close> marks
  inputs on which this development does not say what the engine or the host does
  (floating point, transcoding between \<^verbatim>\<open>str\<close> and \<^verbatim>\<open>bytes\<close>, scalars of another
  class than the one a method declares); no theorem below evaluates such an input.
\<close>

datatype py_error =
    ArrowError | TypeError | KeyError string | IndexError | AttributeError | AssertionError
  | Unmodelled

text \<open>A comprehension whose body can raise: the first exception ends it.\<close>

fun mapM :: "('a \<Rightarrow> 'e + 'b) \<Rightarrow> 'a list \<Rightarrow> 'e + 'b list" where
  "mapM f [] = Inr []"
| "mapM f (x # xs) =
     (case f x of
        Inl e \<Rightarrow> Inl e
      | Inr y \<Rightarrow> (case mapM f xs of Inl e \<Rightarrow> Inl e | Inr ys \<Rightarrow> Inr (y # ys)))"

lemma mapM_cong [fundef_cong]:
  "xs = ys \<Longrightarrow> (\<And>x. x \<in> set ys \<Longrightarrow> f x = g x) \<Longrightarrow> mapM f xs = mapM g ys"
  by (induction ys arbitrary: xs) (auto split: sum.splits)

text \<open>Python's \<^verbatim>\<open>d.get(k)\<close> and \<^verbatim>\<open>d[k] = v\<close> on an insertion-ordered dict.\<close>

fun dict_get :: "('k \<times> 'v) list \<Rightarrow> 'k \<Rightarrow> 'v option" where
  "dict_get [] k = None"
| "dict_get ((k', v) # kvs) k = (if k' = k then Some v else dict_get kvs k)"

fun dict_set :: "('k \<times> 'v) list \<Rightarrow> 'k \<Rightarrow> 'v \<Rightarrow> ('k \<times> 'v) list" where
  "dict_set [] k v = [(k, v)]"
| "dict_set ((k', v') # kvs) k v =
     (if k' = k then (k', v) # kvs else (k', v') # dict_set kvs k v)"

text \<open>
  Keys of a dict must be hashable: lists and dicts are not, and neither is an instance
  of a plain \<^verbatim>\<open>@dataclass\<close> (it defines \<^verbatim>\<open>__eq__\<close> and so loses \<^verbatim>\<open>__hash__\<close>).
\<close>

fun hashable :: "pyval \<Rightarrow> bool" where
  "hashable (PList xs) = False"
| "hashable (PDict kvs) = False"
| "hashable (PObj c kvs) = False"
| "hashable (PTuple xs) = list_all hashable xs"
| "hashable _ = True"

text \<open>
  A dict comprehension \<^verbatim>\<open>{key(x): value(x) for x in xs}\<close>: for each \<open>x\<close> in turn the
  key and the value are computed (either may raise), then the entry is stored, which
  raises \<^verbatim>\<open>TypeError\<close> on an unhashable key; a later entry overwrites an earlier one
  with the same key.
\<close>

fun dict_comprehension ::
  "('a \<Rightarrow> py_error + (pyval \<times> pyval)) \<Rightarrow> 'a list \<Rightarrow> (pyval \<times> pyval) list \<Rightarrow> py_error + pyval"
where
  "dict_comprehension f [] acc = Inr (PDict acc)"
| "dict_comprehension f (x # xs) acc =
     (case f x of
        Inl e \<Rightarrow> Inl e
      | Inr kv \<Rightarrow>
          if hashable (fst kv) then dict_comprehension f xs (dict_set acc (fst kv) (snd kv))
          else Inl TypeError)"

lemma dict_comprehension_cong [fundef_cong]:
  "xs = ys \<Longrightarrow> acc = acc' \<Longrightarrow> (\<And>x. x \<in> set ys \<Longrightarrow> f x = g x)
     \<Longrightarrow> dict_comprehension f xs acc = dict_comprehension g ys acc'"
  by (induction ys arbitrary: xs acc acc') (auto split: sum.splits)

section \<open>The engine operations the converters call\<close>

definition int_range :: "dtype \<Rightarrow> (int \<times> int) option" where
  "int_range t =
     (case t of
        pa_int8 \<Rightarrow> Some (- (2 ^ 7), 2 ^ 7 - 1)
      | pa_int16 \<Rightarrow> Some (- (2 ^ 15), 2 ^ 15 - 1)
      | pa_int32 \<Rightarrow> Some (- (2 ^ 31), 2 ^ 31 - 1)
      | pa_int64 \<Rightarrow> Some (- (2 ^ 63), 2 ^ 63 - 1)
      | pa_uint8 \<Rightarrow> Some (0, 2 ^ 8 - 1)
      | pa_uint16 \<Rightarrow> Some (0, 2 ^ 16 - 1)
      | pa_uint32 \<Rightarrow> Some (0, 2 ^ 32 - 1)
      | pa_uint64 \<Rightarrow> Some (0, 2 ^ 64 - 1)
      | _ \<Rightarrow> None)"

definition is_float :: "dtype \<Rightarrow> bool" where
  "is_float t = (t = pa_float16 \<or> t = pa_float32 \<or> t = pa_float64)"

text \<open>An entry of a map given as a sequence of pairs.\<close>

fun as_pair :: "pyval \<Rightarrow> py_error + (pyval \<times> pyval)" where
  "as_pair (PTuple [a, b]) = Inr (a, b)"
| "as_pair _ = Inl Unmodelled"

text \<open>
  The engine's conversion of one Python value to a payload of a requested dtype
  (\<^verbatim>\<open>pa.scalar(v, type=t)\<close> converts the one-element sequence \<^verbatim>\<open>[v]\<close> the way
  \<^verbatim>\<open>pa.array\<close> converts a sequence, and takes the element):
  \<^item> \<^verbatim>\<open>None\<close> becomes the null payload of any dtype;
  \<^item> an engine scalar is taken as it is when its dtype is the requested one, and
    rejected otherwise;
  \<^item> a bool is accepted by \<open>pa_bool\<close> only, an int by the integer dtypes when it is in
    range (a bool is not an int here), a str by \<open>pa_string\<close>, bytes by \<open>pa_binary\<close>;
  \<^item> a list or tuple is accepted by a list dtype, element by element;
  \<^item> a dict, or a sequence of 2-tuples, is accepted by a map dtype, entry by entry;
    a null key is rejected;
  \<^item> a dict is accepted by a struct dtype: each field is looked up by name, a missing
    key gives a null child and extra keys are ignored;
  \<^item> anything else is rejected; in particular an instance of a dataclass is neither a
    dict nor a tuple nor a sequence, and no dtype accepts it.

  Left open, and marked \<open>Unmodelled\<close>: a value other than \<^verbatim>\<open>None\<close> at a float dtype,
  a str at \<open>pa_binary\<close> and bytes at \<open>pa_string\<close> (the engine transcodes them), a
  str or bytes at a list dtype, a list or tuple at a struct dtype, and a map entry that
  is not a 2-tuple.
\<close>

definition convert_entry ::
  "(pyval \<Rightarrow> py_error + aval) \<Rightarrow> (pyval \<Rightarrow> py_error + aval) \<Rightarrow> pyval \<times> pyval
     \<Rightarrow> py_error + (aval \<times> aval)" where
  "convert_entry conv_key conv_item kv =
     (case conv_key (fst kv) of
        Inl e \<Rightarrow> Inl e
      | Inr ka \<Rightarrow>
          if ka = ANull then Inl ArrowError
          else (case conv_item (snd kv) of Inl e \<Rightarrow> Inl e | Inr wb \<Rightarrow> Inr (ka, wb)))"

fun convert :: "dtype \<Rightarrow> pyval \<Rightarrow> py_error + aval"
and convert_fields :: "(string \<times> dtype) list \<Rightarrow> (pyval \<times> pyval) list \<Rightarrow> py_error + aval list"
where
  "convert t PNone = Inr ANull"
| "convert t (PScalar s) =
     (if scalar_type s = t then Inr (scalar_value s) else Inl ArrowError)"
| "convert t (PBool b) =
     (if t = pa_bool then Inr (ABool b)
      else if is_float t then Inl Unmodelled else Inl ArrowError)"
| "convert t (PInt n) =
     (case int_range t of
        Some (lo, hi) \<Rightarrow> if lo \<le> n \<and> n \<le> hi then Inr (AInt n) else Inl ArrowError
      | None \<Rightarrow> if is_float t then Inl Unmodelled else Inl ArrowError)"
| "convert t (PStr s) =
     (case t of
        pa_string \<Rightarrow> Inr (AStr s)
      | pa_binary \<Rightarrow> Inl Unmodelled
      | pa_list e \<Rightarrow> Inl Unmodelled
      | _ \<Rightarrow> if is_float t then Inl Unmodelled else Inl ArrowError)"
| "convert t (PBytes b) =
     (case t of
        pa_binary \<Rightarrow> Inr (ABin b)
      | pa_string \<Rightarrow> Inl Unmodelled
      | pa_list e \<Rightarrow> Inl Unmodelled
      | _ \<Rightarrow> if is_float t then Inl Unmodelled else Inl ArrowError)"
| "convert t (PList xs) =
     (case t of
        pa_list e \<Rightarrow> map_sum id AList (mapM (convert e) xs)
      | pa_map k w \<Rightarrow>
          (case mapM as_pair xs of
             Inl e \<Rightarrow> Inl e
           | Inr kvs \<Rightarrow> map_sum id AMap (mapM (convert_entry (convert k) (convert w)) kvs))
      | pa_struct fts \<Rightarrow> Inl Unmodelled
      | _ \<Rightarrow> Inl ArrowError)"
| "convert t (PTuple xs) =
     (case t of
        pa_list e \<Rightarrow> map_sum id AList (mapM (convert e) xs)
      | pa_map k w \<Rightarrow>
          (case mapM as_pair xs of
             Inl e \<Rightarrow> Inl e
           | Inr kvs \<Rightarrow> map_sum id AMap (mapM (convert_entry (convert k) (convert w)) kvs))
      | pa_struct fts \<Rightarrow> Inl Unmodelled
      | _ \<Rightarrow> Inl ArrowError)"
| "convert t (PDict kvs) =
     (case t of
        pa_map k w \<Rightarrow> map_sum id AMap (mapM (convert_entry (convert k) (convert w)) kvs)
      | pa_struct fts \<Rightarrow> map_sum id AStruct (convert_fields fts kvs)
      | _ \<Rightarrow> Inl ArrowError)"
| "convert t (PObj c kvs) = Inl ArrowError"
| "convert_fields [] kvs = Inr []"
| "convert_fields ((n, t) # fts) kvs =
     (case convert t (case dict_get kvs (PStr n) of None \<Rightarrow> PNone | Some x \<Rightarrow> x) of
        Inl e \<Rightarrow> Inl e
      | Inr a \<Rightarrow>
          (case convert_fields fts kvs of
             Inl e \<Rightarrow> Inl e
           | Inr rest \<Rightarrow> Inr (a # rest)))"

text \<open>\<^verbatim>\<open>pa.scalar(py, type=t)\<close> and \<^verbatim>\<open>pa.array(py, type=t)\<close>.\<close>

definition pa_scalar :: "pyval \<Rightarrow> dtype \<Rightarrow> py_error + arrow_scalar" where
  "pa_scalar py t = map_sum id (Scalar t) (convert t py)"

definition pa_array :: "pyval list \<Rightarrow> dtype \<Rightarrow> py_error + arrow_array" where
  "pa_array py t = map_sum id (Array t) (mapM (convert t) py)"

text \<open>
  \<^verbatim>\<open>scalar.as_py()\<close>: the native value of a scalar.  A null scalar gives \<^verbatim>\<open>None\<close>, a
  list scalar a list, a map scalar the list of its (key, item) tuples, a struct scalar
  a dict keyed by the field names.  A composite payload under a dtype of another kind
  is not a scalar the engine produces; the function gives \<^verbatim>\<open>None\<close> for it.
\<close>

fun value_as_py :: "dtype \<Rightarrow> aval \<Rightarrow> pyval"
and fields_as_py :: "(string \<times> dtype) list \<Rightarrow> aval list \<Rightarrow> (pyval \<times> pyval) list"
where
  "value_as_py t ANull = PNone"
| "value_as_py t (ABool b) = PBool b"
| "value_as_py t (AInt n) = PInt n"
| "value_as_py t (AStr s) = PStr s"
| "value_as_py t (ABin b) = PBytes b"
| "value_as_py t (AList xs) =
     (case t of pa_list e \<Rightarrow> PList (map (value_as_py e) xs) | _ \<Rightarrow> PNone)"
| "value_as_py t (AMap kvs) =
     (case t of
        pa_map k w \<Rightarrow> PList (map (\<lambda>(a, b). PTuple [value_as_py k a, value_as_py w b]) kvs)
      | _ \<Rightarrow> PNone)"
| "value_as_py t (AStruct vs) =
     (case t of pa_struct fts \<Rightarrow> PDict (fields_as_py fts vs) | _ \<Rightarrow> PNone)"
| "fields_as_py ((n, t) # fts) (v # vs) = (PStr n, value_as_py t v) # fields_as_py fts vs"
| "fields_as_py _ _ = []"

definition as_py :: "arrow_scalar \<Rightarrow> pyval" where
  "as_py s = value_as_py (scalar_type s) (scalar_value s)"

text \<open>\<^verbatim>\<open>array.to_pylist()\<close> and iteration over an array (\<^verbatim>\<open>for sub in arrow\<close>).\<close>

definition to_pylist :: "arrow_array \<Rightarrow> pyval list" where
  "to_pylist a = map (value_as_py (array_type a)) (array_values a)"

definition array_iter :: "arrow_array \<Rightarrow> arrow_scalar list" where
  "array_iter a = map (Scalar (array_type a)) (array_values a)"

section \<open>The converters of \<^verbatim>\<open>flint/arrow.py\<close>\<close>

text \<open>
  The classes \<^verbatim>\<open>BasicTypeArrowMarshaller\<close>, \<^verbatim>\<open>ListArrowMarshaller\<close>,
  \<^verbatim>\<open>MapArrowMarshaller\<close> and \<^verbatim>\<open>StructArrowMarshaller\<close> with the attributes their
  constructors store: \<^verbatim>\<open>py_type\<close> and \<^verbatim>\<open>arrow_dtype\<close> of a basic converter,
  \<^verbatim>\<open>elem\<close>, \<^verbatim>\<open>key\<close> and \<^verbatim>\<open>value\<close>, and \<^verbatim>\<open>cls\<close> (the dataclass, by name) and
  \<^verbatim>\<open>fields\<close> (field name to child converter, in declaration order) of a struct
  converter.  The attribute \<^verbatim>\<open>arrow_dtype\<close> of a composite converter is computed by its
  constructor from the children; \<open>arrow_dtype\<close> below is that computation.
\<close>

datatype builtin = py_NoneType | py_bool | py_int | py_float | py_str | py_bytes

datatype marshaller =
    BasicTypeArrowMarshaller builtin dtype
  | ListArrowMarshaller marshaller
  | MapArrowMarshaller marshaller marshaller
  | StructArrowMarshaller string "(string \<times> marshaller) list"

fun arrow_dtype :: "marshaller \<Rightarrow> dtype" where
  "arrow_dtype (BasicTypeArrowMarshaller py_type arrow_type) = arrow_type"
| "arrow_dtype (ListArrowMarshaller elem) = pa_list (arrow_dtype elem)"
| "arrow_dtype (MapArrowMarshaller key val) = pa_map (arrow_dtype key) (arrow_dtype val)"
| "arrow_dtype (StructArrowMarshaller cls fields) =
     pa_struct (map (\<lambda>f. (fst f, arrow_dtype (snd f))) fields)"

text \<open>\<^verbatim>\<open>isinstance(m, BasicTypeArrowMarshaller)\<close>.\<close>

fun is_basic :: "marshaller \<Rightarrow> bool" where
  "is_basic (BasicTypeArrowMarshaller py_type arrow_type) = True"
| "is_basic _ = False"

definition null :: marshaller where "null = BasicTypeArrowMarshaller py_NoneType pa_null"
definition boolean :: marshaller where "boolean = BasicTypeArrowMarshaller py_bool pa_bool"
definition int8 :: marshaller where "int8 = BasicTypeArrowMarshaller py_int pa_int8"
definition int16 :: marshaller where "int16 = BasicTypeArrowMarshaller py_int pa_int16"
definition int32 :: marshaller where "int32 = BasicTypeArrowMarshaller py_int pa_int32"
definition int64 :: marshaller where "int64 = BasicTypeArrowMarshaller py_int pa_int64"
definition uint8 :: marshaller where "uint8 = BasicTypeArrowMarshaller py_int pa_uint8"
definition uint16 :: marshaller where "uint16 = BasicTypeArrowMarshaller py_int pa_uint16"
definition uint32 :: marshaller where "uint32 = BasicTypeArrowMarshaller py_int pa_uint32"
definition uint64 :: marshaller where "uint64 = BasicTypeArrowMarshaller py_int pa_uint64"
definition float16 :: marshaller where "float16 = BasicTypeArrowMarshaller py_float pa_float16"
definition float32 :: marshaller where "float32 = BasicTypeArrowMarshaller py_float pa_float32"
definition float64 :: marshaller where "float64 = BasicTypeArrowMarshaller py_float pa_float64"
definition string :: marshaller where "string = BasicTypeArrowMarshaller py_str pa_string"
definition binary :: marshaller where "binary = BasicTypeArrowMarshaller py_bytes pa_binary"

subsection \<open>Host operations on the values the converters receive\<close>

text \<open>
  \<^verbatim>\<open>for sub in py\<close>: a list or tuple gives its elements, a dict its keys, a str its
  characters; \<^verbatim>\<open>None\<close>, numbers and dataclass instances are not iterable.
\<close>

fun py_iter :: "pyval \<Rightarrow> py_error + pyval list" where
  "py_iter (PList xs) = Inr xs"
| "py_iter (PTuple xs) = Inr xs"
| "py_iter (PDict kvs) = Inr (map fst kvs)"
| "py_iter (PStr s) = Inr (map (\<lambda>c. PStr [c]) s)"
| "py_iter (PBytes b) = Inr (map (\<lambda>c. PInt (of_char c)) b)"
| "py_iter (PScalar s) = Inl Unmodelled"
| "py_iter _ = Inl TypeError"

text \<open>\<^verbatim>\<open>py.__dict__\<close>: the attributes of a dataclass instance; other values have none.\<close>

fun py_dict :: "pyval \<Rightarrow> py_error + pyval" where
  "py_dict (PObj c kvs) = Inr (PDict (map (\<lambda>kv. (PStr (fst kv), snd kv)) kvs))"
| "py_dict _ = Inl AttributeError"

text \<open>
  \<^verbatim>\<open>cls(**kwargs)\<close> for a dataclass whose fields have no default: an unexpected or a
  missing keyword raises \<^verbatim>\<open>TypeError\<close>; the attributes of the new instance are set in
  declaration order.
\<close>

definition dataclass_init :: "string \<Rightarrow> string list \<Rightarrow> (string \<times> pyval) list \<Rightarrow> py_error + pyval" where
  "dataclass_init cls names kwargs =
     (if list_all (\<lambda>k. k \<in> set names) (map fst kwargs)
         \<and> list_all (\<lambda>n. dict_get kwargs n \<noteq> None) names
      then Inr (PObj cls (map (\<lambda>n. (n, the (dict_get kwargs n))) names))
      else Inl TypeError)"

text \<open>\<^verbatim>\<open>assert cond; return x\<close>.\<close>

definition py_assert :: "bool \<Rightarrow> 'a \<Rightarrow> py_error + 'a" where
  "py_assert cond x = (if cond then Inr x else Inl AssertionError)"

subsection \<open>Engine operations on composite scalars\<close>

text \<open>
  The scalar classes: a scalar of a list dtype is a \<^verbatim>\<open>ListScalar\<close>, of a map dtype a
  \<^verbatim>\<open>MapScalar\<close> (a subclass of \<^verbatim>\<open>ListScalar\<close>), of a struct dtype a \<^verbatim>\<open>StructScalar\<close>;
  the array classes likewise.
\<close>

fun is_list_dtype :: "dtype \<Rightarrow> bool" where
  "is_list_dtype (pa_list e) = True"
| "is_list_dtype (pa_map k w) = True"
| "is_list_dtype _ = False"

fun is_map_dtype :: "dtype \<Rightarrow> bool" where
  "is_map_dtype (pa_map k w) = True"
| "is_map_dtype _ = False"

fun is_struct_dtype :: "dtype \<Rightarrow> bool" where
  "is_struct_dtype (pa_struct fts) = True"
| "is_struct_dtype _ = False"

text \<open>
  \<^verbatim>\<open>for sub in arrow\<close> on a \<^verbatim>\<open>ListScalar\<close> iterates \<^verbatim>\<open>arrow.values\<close>, which is
  \<^verbatim>\<open>None\<close> for a null scalar.
\<close>

fun ListScalar_iter :: "arrow_scalar \<Rightarrow> py_error + arrow_scalar list" where
  "ListScalar_iter (Scalar (pa_list e) (AList xs)) = Inr (map (Scalar e) xs)"
| "ListScalar_iter (Scalar (pa_list e) ANull) = Inl TypeError"
| "ListScalar_iter _ = Inl Unmodelled"

text \<open>
  A \<^verbatim>\<open>MapScalar\<close>: iteration yields the native (key, item) pairs and nothing for a null
  scalar; \<^verbatim>\<open>len\<close> is the length of \<^verbatim>\<open>arrow.values\<close>, undefined for a null scalar;
  \<^verbatim>\<open>arrow[i]\<close> is the pair of the key scalar and the item scalar of entry \<open>i\<close>.
\<close>

fun MapScalar_iter :: "arrow_scalar \<Rightarrow> py_error + (pyval \<times> pyval) list" where
  "MapScalar_iter (Scalar (pa_map k w) (AMap kvs)) =
     Inr (map (\<lambda>kv. (value_as_py k (fst kv), value_as_py w (snd kv))) kvs)"
| "MapScalar_iter (Scalar (pa_map k w) ANull) = Inr []"
| "MapScalar_iter _ = Inl Unmodelled"

fun MapScalar_len :: "arrow_scalar \<Rightarrow> py_error + nat" where
  "MapScalar_len (Scalar (pa_map k w) (AMap kvs)) = Inr (length kvs)"
| "MapScalar_len (Scalar (pa_map k w) ANull) = Inl TypeError"
| "MapScalar_len _ = Inl Unmodelled"

fun MapScalar_getitem :: "arrow_scalar \<Rightarrow> nat \<Rightarrow> py_error + (arrow_scalar \<times> arrow_scalar)" where
  "MapScalar_getitem (Scalar (pa_map k w) (AMap kvs)) i =
     (if i < length kvs then Inr (Scalar k (fst (kvs ! i)), Scalar w (snd (kvs ! i)))
      else Inl IndexError)"
| "MapScalar_getitem (Scalar (pa_map k w) ANull) i = Inl IndexError"
| "MapScalar_getitem _ i = Inl Unmodelled"

text \<open>
  \<^verbatim>\<open>arrow.items()\<close> on a \<^verbatim>\<open>StructScalar\<close>: the field names of the struct dtype, in its
  physical order, each with the scalar of that field.  What the items of a null struct
  scalar are is left open, as is every call on a scalar of another class than the one
  the method declares.
\<close>

fun field_scalars :: "(string \<times> dtype) list \<Rightarrow> aval list \<Rightarrow> (string \<times> arrow_scalar) list" where
  "field_scalars ((n, t) # fts) (v # vs) = (n, Scalar t v) # field_scalars fts vs"
| "field_scalars _ _ = []"

fun StructScalar_items :: "arrow_scalar \<Rightarrow> py_error + (string \<times> arrow_scalar) list" where
  "StructScalar_items (Scalar (pa_struct fts) (AStruct vs)) =
     (if length vs = length fts then Inr (field_scalars fts vs) else Inl Unmodelled)"
| "StructScalar_items _ = Inl Unmodelled"

subsection \<open>\<^verbatim>\<open>to_arrow\<close>\<close>

fun to_arrow :: "marshaller \<Rightarrow> pyval \<Rightarrow> py_error + arrow_scalar" where
  "to_arrow (BasicTypeArrowMarshaller py_type arrow_type) py = pa_scalar py arrow_type"
| "to_arrow (ListArrowMarshaller elem) py =
     (case
        (if is_basic elem then pa_scalar py (arrow_dtype (ListArrowMarshaller elem))
         else
           (case py_iter py of
              Inl e \<Rightarrow> Inl e
            | Inr subs \<Rightarrow>
                (case mapM (to_arrow elem) subs of
                   Inl e \<Rightarrow> Inl e
                 | Inr ss \<Rightarrow>
                     pa_scalar (PList (map PScalar ss)) (arrow_dtype (ListArrowMarshaller elem)))))
      of
        Inl e \<Rightarrow> Inl e
      | Inr s \<Rightarrow> py_assert (is_list_dtype (scalar_type s)) s)"
| "to_arrow (MapArrowMarshaller key val) py =
     (case pa_scalar py (arrow_dtype (MapArrowMarshaller key val)) of
        Inl e \<Rightarrow> Inl e
      | Inr s \<Rightarrow> py_assert (is_map_dtype (scalar_type s)) s)"
| "to_arrow (StructArrowMarshaller cls fields) py =
     (case py_dict py of
        Inl e \<Rightarrow> Inl e
      | Inr d \<Rightarrow>
          (case pa_scalar d (arrow_dtype (StructArrowMarshaller cls fields)) of
             Inl e \<Rightarrow> Inl e
           | Inr a \<Rightarrow> py_assert (is_struct_dtype (scalar_type a)) a))"

subsection \<open>\<^verbatim>\<open>from_arrow\<close>\<close>

lemma dict_get_in_set: "dict_get kvs k = Some v \<Longrightarrow> (k, v) \<in> set kvs"
  by (induction kvs) (auto split: if_splits)

lemma field_size_less:
  "(n, m) \<in> set fields \<Longrightarrow> size m < size (StructArrowMarshaller cls fields)"
  by (induction fields) auto

text \<open>
  The two branches of \<^verbatim>\<open>MapArrowMarshaller.from_arrow\<close>.  The first is
  \<^verbatim>\<open>{k: v for k, v in arrow}\<close>; the second is
  \<^verbatim>\<open>{self.key.from_arrow(arrow[i][0]): self.value.from_arrow(arrow[i][1])
  for i in range(len(arrow))}\<close>, with the children's \<^verbatim>\<open>from_arrow\<close> as parameters.
\<close>

definition map_from_arrow_native :: "arrow_scalar \<Rightarrow> py_error + pyval" where
  "map_from_arrow_native arrow =
     (case MapScalar_iter arrow of
        Inl e \<Rightarrow> Inl e
      | Inr kvs \<Rightarrow> dict_comprehension Inr kvs [])"

definition map_from_arrow_indexed ::
  "(arrow_scalar \<Rightarrow> py_error + pyval) \<Rightarrow> (arrow_scalar \<Rightarrow> py_error + pyval) \<Rightarrow> arrow_scalar
     \<Rightarrow> py_error + pyval" where
  "map_from_arrow_indexed key_from_arrow value_from_arrow arrow =
     (case MapScalar_len arrow of
        Inl e \<Rightarrow> Inl e
      | Inr n \<Rightarrow>
          dict_comprehension
            (\<lambda>i. case MapScalar_getitem arrow i of
                    Inl e \<Rightarrow> Inl e
                  | Inr kw \<Rightarrow>
                      (case key_from_arrow (fst kw) of
                         Inl e \<Rightarrow> Inl e
                       | Inr k \<Rightarrow>
                           (case value_from_arrow (snd kw) of
                              Inl e \<Rightarrow> Inl e
                            | Inr v \<Rightarrow> Inr (k, v))))
            [0 ..< n] [])"

function from_arrow :: "marshaller \<Rightarrow> arrow_scalar \<Rightarrow> py_error + pyval" where
  "from_arrow (BasicTypeArrowMarshaller py_type arrow_type) arrow = Inr (as_py arrow)"
| "from_arrow (ListArrowMarshaller elem) arrow =
     (if is_basic elem then Inr (as_py arrow)
      else
        (case ListScalar_iter arrow of
           Inl e \<Rightarrow> Inl e
         | Inr subs \<Rightarrow> map_sum id PList (mapM (from_arrow elem) subs)))"
| "from_arrow (MapArrowMarshaller key val) arrow =
     (if is_basic key \<and> is_basic val then map_from_arrow_native arrow
      else map_from_arrow_indexed (from_arrow key) (from_arrow val) arrow)"
| "from_arrow (StructArrowMarshaller cls fields) arrow =
     (case StructScalar_items arrow of
        Inl e \<Rightarrow> Inl e
      | Inr items \<Rightarrow>
          (case mapM (\<lambda>fv. case dict_get fields (fst fv) of
                               None \<Rightarrow> Inl (KeyError (fst fv))
                             | Some m \<Rightarrow> map_sum id (Pair (fst fv)) (from_arrow m (snd fv)))
                     items
           of
             Inl e \<Rightarrow> Inl e
           | Inr kvs \<Rightarrow>
               dataclass_init cls (map fst fields)
                 (fold (\<lambda>kv acc. dict_set acc (fst kv) (snd kv)) kvs [])))"
  by pat_completeness auto
termination
proof (relation "measure (\<lambda>p. size (fst p))")
  show "wf (measure (\<lambda>p. size (fst p)))" by simp
qed (auto dest!: dict_get_in_set field_size_less)

subsection \<open>\<^verbatim>\<open>to_arrow_array\<close> and \<^verbatim>\<open>from_arrow_array\<close>\<close>

text \<open>
  Both take the sequence they convert as a list.  The composite converters call their
  own \<^verbatim>\<open>to_arrow\<close> and \<^verbatim>\<open>from_arrow\<close> on each element.
\<close>

fun to_arrow_array :: "marshaller \<Rightarrow> pyval list \<Rightarrow> py_error + arrow_array" where
  "to_arrow_array (BasicTypeArrowMarshaller py_type arrow_type) py = pa_array py arrow_type"
| "to_arrow_array (ListArrowMarshaller elem) py =
     (case
        (if is_basic elem then pa_array py (arrow_dtype (ListArrowMarshaller elem))
         else
           (case mapM (to_arrow (ListArrowMarshaller elem)) py of
              Inl e \<Rightarrow> Inl e
            | Inr ss \<Rightarrow> pa_array (map PScalar ss) (arrow_dtype (ListArrowMarshaller elem))))
      of
        Inl e \<Rightarrow> Inl e
      | Inr a \<Rightarrow> py_assert (is_list_dtype (array_type a)) a)"
| "to_arrow_array (MapArrowMarshaller key val) py =
     (case
        (if is_basic key \<and> is_basic val
         then pa_array py (arrow_dtype (MapArrowMarshaller key val))
         else
           (case mapM (to_arrow (MapArrowMarshaller key val)) py of
              Inl e \<Rightarrow> Inl e
            | Inr ss \<Rightarrow> pa_array (map PScalar ss) (arrow_dtype (MapArrowMarshaller key val))))
      of
        Inl e \<Rightarrow> Inl e
      | Inr a \<Rightarrow> py_assert (is_map_dtype (array_type a)) a)"
| "to_arrow_array (StructArrowMarshaller cls fields) py =
     (case mapM (to_arrow (StructArrowMarshaller cls fields)) py of
        Inl e \<Rightarrow> Inl e
      | Inr ss \<Rightarrow>
          (case pa_array (map PScalar ss) (arrow_dtype (StructArrowMarshaller cls fields)) of
             Inl e \<Rightarrow> Inl e
           | Inr a \<Rightarrow> py_assert (is_struct_dtype (array_type a)) a))"

fun from_arrow_array :: "marshaller \<Rightarrow> arrow_array \<Rightarrow> py_error + pyval list" where
  "from_arrow_array (BasicTypeArrowMarshaller py_type arrow_type) arrow = Inr (to_pylist arrow)"
| "from_arrow_array (ListArrowMarshaller elem) arrow =
     (if is_basic elem then Inr (to_pylist arrow)
      else mapM (from_arrow (ListArrowMarshaller elem)) (array_iter arrow))"
| "from_arrow_array (MapArrowMarshaller key val) arrow =
     mapM (from_arrow (MapArrowMarshaller key val)) (array_iter arrow)"
| "from_arrow_array (StructArrowMarshaller cls fields) arrow =
     mapM (from_arrow (StructArrowMarshaller cls fields)) (array_iter arrow)"

section \<open>Derivation of a converter from a type\<close>

text \<open>
  The types \<^verbatim>\<open>derive_arrow_marshaller\<close> inspects.  A parameterised generic such as
  \<^verbatim>\<open>list[int]\<close> or \<^verbatim>\<open>dict[str, int]\<close> has an origin and arguments
  (\<^verbatim>\<open>typing.get_origin\<close>, \<^verbatim>\<open>typing.get_args\<close>).  The origin is a class, of which
  \<^verbatim>\<open>issubclass\<close> can tell whether it is a \<^verbatim>\<open>Sequence\<close> or a \<^verbatim>\<open>Mapping\<close>, or a
  special form of \<^verbatim>\<open>typing\<close> such as \<^verbatim>\<open>Literal\<close>, which is not a class.  A dataclass
  has a name and its fields in declaration order; a field has a name, a type and,
  possibly, a converter under the key \<^verbatim>\<open>'arrow_marshaller'\<close> of its metadata.
  \<open>other_type\<close> is any other object: it is none of the six builtin types, not a
  dataclass, and \<^verbatim>\<open>get_origin\<close> gives \<^verbatim>\<open>None\<close> for it.
\<close>

datatype origin =
    class_origin (origin_name: string) (is_Sequence: bool) (is_Mapping: bool)
  | special_form (origin_name: string)

datatype 'a py_field =
  PyField (field_name: string) (field_type: 'a) (metadata_arrow_marshaller: "marshaller option")

datatype pytype =
    builtin_type builtin
  | dataclass string "pytype py_field list"
  | generic_alias origin "pytype list"
  | other_type string

datatype derive_error =
    NotImplementedError pytype
  | issubclass_TypeError
  | get_args_IndexError

text \<open>\<^verbatim>\<open>issubclass(origin, C)\<close> raises \<^verbatim>\<open>TypeError\<close> when \<open>origin\<close> is not a class.\<close>

fun issubclass_Sequence :: "origin \<Rightarrow> derive_error + bool" where
  "issubclass_Sequence (class_origin n s m) = Inr s"
| "issubclass_Sequence (special_form n) = Inl issubclass_TypeError"

fun issubclass_Mapping :: "origin \<Rightarrow> derive_error + bool" where
  "issubclass_Mapping (class_origin n s m) = Inr m"
| "issubclass_Mapping (special_form n) = Inl issubclass_TypeError"

lemma field_type_size_less:
  "f \<in> set fields \<Longrightarrow> size (field_type f) < size (dataclass cls fields)"
proof (induction fields)
  case Nil
  then show ?case by simp
next
  case (Cons g fields)
  then show ?case by (cases g) auto
qed

function derive_arrow_marshaller :: "pytype \<Rightarrow> derive_error + marshaller"
and derive_arrow_marshaller_for_field :: "pytype py_field \<Rightarrow> derive_error + marshaller"
where
  "derive_arrow_marshaller (builtin_type b) =
     (case b of
        py_NoneType \<Rightarrow> Inr null
      | py_bool \<Rightarrow> Inr boolean
      | py_int \<Rightarrow> Inr int64
      | py_float \<Rightarrow> Inr float64
      | py_str \<Rightarrow> Inr string
      | py_bytes \<Rightarrow> Inr binary)"
| "derive_arrow_marshaller (dataclass cls fields) =
     map_sum id (StructArrowMarshaller cls)
       (mapM (\<lambda>f. map_sum id (Pair (field_name f)) (derive_arrow_marshaller_for_field f)) fields)"
| "derive_arrow_marshaller (generic_alias origin args) =
     (case issubclass_Sequence origin of
        Inl e \<Rightarrow> Inl e
      | Inr True \<Rightarrow>
          (case args of
             [] \<Rightarrow> Inl get_args_IndexError
           | a # rest \<Rightarrow> map_sum id ListArrowMarshaller (derive_arrow_marshaller a))
      | Inr False \<Rightarrow>
          (case issubclass_Mapping origin of
             Inl e \<Rightarrow> Inl e
           | Inr True \<Rightarrow>
               (case args of
                  [] \<Rightarrow> Inl get_args_IndexError
                | a # rest \<Rightarrow>
                    (case derive_arrow_marshaller a of
                       Inl e \<Rightarrow> Inl e
                     | Inr key \<Rightarrow>
                         (case rest of
                            [] \<Rightarrow> Inl get_args_IndexError
                          | b # rest' \<Rightarrow>
                              map_sum id (MapArrowMarshaller key) (derive_arrow_marshaller b))))
           | Inr False \<Rightarrow> Inl (NotImplementedError (generic_alias origin args))))"
| "derive_arrow_marshaller (other_type n) = Inl (NotImplementedError (other_type n))"
| "derive_arrow_marshaller_for_field f =
     (case metadata_arrow_marshaller f of
        Some m \<Rightarrow> Inr m
      | None \<Rightarrow> derive_arrow_marshaller (field_type f))"
  by pat_completeness auto
termination
proof (relation "measure (\<lambda>x. case x of Inl t \<Rightarrow> 2 * size t | Inr f \<Rightarrow> 2 * size (field_type f) + 1)")
  show "wf (measure (\<lambda>x. case x of Inl t \<Rightarrow> 2 * size t | Inr f \<Rightarrow> 2 * size (field_type f) + 1))"
    by simp
qed (auto dest!: field_type_size_less)

text \<open>
  Which converters a derived tree contains, and which types carry no override: the
  vocabulary of the statements about derivation.
\<close>

fun converters :: "marshaller \<Rightarrow> marshaller list" where
  "converters (BasicTypeArrowMarshaller p t) = [BasicTypeArrowMarshaller p t]"
| "converters (ListArrowMarshaller elem) = ListArrowMarshaller elem # converters elem"
| "converters (MapArrowMarshaller key val) =
     MapArrowMarshaller key val # converters key @ converters val"
| "converters (StructArrowMarshaller cls fields) =
     StructArrowMarshaller cls fields # concat (map (\<lambda>f. converters (snd f)) fields)"

definition narrow :: "marshaller list" where
  "narrow = [int8, int16, int32, uint8, uint16, uint32, uint64, float16, float32]"

definition narrow_free :: "marshaller \<Rightarrow> bool" where
  "narrow_free m = list_all (\<lambda>x. x \<notin> set narrow) (converters m)"

fun override_free :: "pytype \<Rightarrow> bool" where
  "override_free (builtin_type b) = True"
| "override_free (dataclass cls fields) =
     list_all (\<lambda>f. case f of PyField n t md \<Rightarrow> md = None \<and> override_free t) fields"
| "override_free (generic_alias origin args) = list_all override_free args"
| "override_free (other_type n) = True"

text \<open>
  The values a converter is meant for: a value of the primitive kind of a basic
  converter's dtype (integers within the range of the dtype; no floating point), a list
  of conforming elements, a dict of conforming keys and values, an instance of the
  dataclass whose attributes are the declared fields, each conforming.
\<close>

fun conforms :: "marshaller \<Rightarrow> pyval \<Rightarrow> bool"
and conforms_fields :: "(string \<times> marshaller) list \<Rightarrow> (string \<times> pyval) list \<Rightarrow> bool"
where
  "conforms (BasicTypeArrowMarshaller p t) v =
     (case v of
        PNone \<Rightarrow> t = pa_null
      | PBool b \<Rightarrow> t = pa_bool
      | PInt n \<Rightarrow> (case int_range t of Some (lo, hi) \<Rightarrow> lo \<le> n \<and> n \<le> hi | None \<Rightarrow> False)
      | PStr s \<Rightarrow> t = pa_string
      | PBytes b \<Rightarrow> t = pa_binary
      | _ \<Rightarrow> False)"
| "conforms (ListArrowMarshaller elem) v =
     (case v of PList xs \<Rightarrow> list_all (conforms elem) xs | _ \<Rightarrow> False)"
| "conforms (MapArrowMarshaller key val) v =
     (case v of
        PDict kvs \<Rightarrow>
          distinct (map fst kvs) \<and>
          list_all (\<lambda>kv. hashable (fst kv) \<and> conforms key (fst kv) \<and> conforms val (snd kv)) kvs
      | _ \<Rightarrow> False)"
| "conforms (StructArrowMarshaller cls fields) v =
     (case v of PObj c kvs \<Rightarrow> c = cls \<and> conforms_fields fields kvs | _ \<Rightarrow> False)"
| "conforms_fields [] kvs = (kvs = [])"
| "conforms_fields (f # fields) kvs =
     (case kvs of
        [] \<Rightarrow> False
      | kv # kvs' \<Rightarrow> fst kv = fst f \<and> conforms (snd f) (snd kv) \<and> conforms_fields fields kvs')"

text \<open>
  The converters whose round trip is proved below.  \<open>native\<close>: the engine alone
  encodes every conforming value, because no record occurs and every map key is basic
  and not of the null dtype (the engine rejects null keys, and a decoded list, dict or
  record cannot be a dict key).  \<open>round_trip_ok\<close>: lists of such converters at any
  depth, maps that are native, and records whose fields are native.
\<close>

fun native :: "marshaller \<Rightarrow> bool" where
  "native (BasicTypeArrowMarshaller p t) = True"
| "native (ListArrowMarshaller elem) = native elem"
| "native (MapArrowMarshaller key val) =
     (is_basic key \<and> arrow_dtype key \<noteq> pa_null \<and> native val)"
| "native (StructArrowMarshaller cls fields) = False"

fun round_trip_ok :: "marshaller \<Rightarrow> bool" where
  "round_trip_ok (BasicTypeArrowMarshaller p t) = True"
| "round_trip_ok (ListArrowMarshaller elem) = round_trip_ok elem"
| "round_trip_ok (MapArrowMarshaller key val) = native (MapArrowMarshaller key val)"
| "round_trip_ok (StructArrowMarshaller cls fields) =
     (distinct (map fst fields) \<and> list_all (\<lambda>f. native (snd f)) fields)"

text \<open>
  The encoding of a map the specification describes, to compare \<^verbatim>\<open>to_arrow\<close> with:
  when both children are basic the dict goes to the engine as it is; otherwise each
  entry's key and value are encoded by the child converters and the entries of scalars
  go to the engine.
\<close>

definition map_to_scalar_spec :: "marshaller \<Rightarrow> marshaller \<Rightarrow> pyval \<Rightarrow> py_error + arrow_scalar" where
  "map_to_scalar_spec key val py =
     (if is_basic key \<and> is_basic val
      then pa_scalar py (arrow_dtype (MapArrowMarshaller key val))
      else
        (case py of
           PDict kvs \<Rightarrow>
             (case mapM (\<lambda>kv. case to_arrow key (fst kv) of
                                  Inl e \<Rightarrow> Inl e
                                | Inr k \<Rightarrow>
                                    (case to_arrow val (snd kv) of
                                       Inl e \<Rightarrow> Inl e
                                     | Inr v \<Rightarrow> Inr (PTuple [PScalar k, PScalar v])))
                        kvs
              of
                Inl e \<Rightarrow> Inl e
              | Inr entries \<Rightarrow>
                  pa_scalar (PList entries) (arrow_dtype (MapArrowMarshaller key val)))
         | _ \<Rightarrow> Inl AttributeError))"

section \<open>Basic facts\<close>

lemma map_sum_Inr_iff: "map_sum f g x = Inr s \<longleftrightarrow> (\<exists>y. x = Inr y \<and> s = g y)"
  by (cases x) auto

lemma map_sum_Inl_iff: "map_sum f g x = Inl e \<longleftrightarrow> (\<exists>y. x = Inl y \<and> e = f y)"
  by (cases x) auto

lemma mapM_map: "mapM f (map g xs) = mapM (\<lambda>x. f (g x)) xs"
  by (induction xs) (auto split: sum.splits)

lemma mapM_Inr: "mapM (\<lambda>x. Inr (f x)) xs = Inr (map f xs)"
  by (induction xs) auto

lemma mapM_set:
  "mapM f xs = Inr ys \<Longrightarrow> y \<in> set ys \<Longrightarrow> \<exists>x \<in> set xs. f x = Inr y"
  by (induction xs arbitrary: ys) (auto split: sum.splits)

lemma pa_scalar_type: "pa_scalar py t = Inr s \<Longrightarrow> scalar_type s = t"
  by (auto simp: pa_scalar_def map_sum_Inr_iff)

lemma pa_array_type: "pa_array pys t = Inr a \<Longrightarrow> array_type a = t"
  by (auto simp: pa_array_def map_sum_Inr_iff)

lemma py_assert_Inr: "py_assert c x = Inr y \<longleftrightarrow> c \<and> y = x"
  by (auto simp: py_assert_def)

text \<open>The assertions after the engine calls never fire.\<close>

lemma assert_pa_scalar:
  "c t \<Longrightarrow>
   (case pa_scalar py t of Inl e \<Rightarrow> Inl e | Inr s \<Rightarrow> py_assert (c (scalar_type s)) s)
     = pa_scalar py t"
  by (auto simp: pa_scalar_def py_assert_def map_sum_Inr_iff split: sum.splits)

lemma assert_pa_array:
  "c t \<Longrightarrow>
   (case pa_array py t of Inl e \<Rightarrow> Inl e | Inr s \<Rightarrow> py_assert (c (array_type s)) s)
     = pa_array py t"
  by (auto simp: pa_array_def py_assert_def map_sum_Inr_iff split: sum.splits)

section \<open>Dtype stability\<close>

lemma to_arrow_type: "to_arrow m py = Inr s \<Longrightarrow> scalar_type s = arrow_dtype m"
  by (cases m) (auto simp: py_assert_Inr split: sum.splits if_splits dest: pa_scalar_type)

lemma to_arrow_array_type: "to_arrow_array m pys = Inr a \<Longrightarrow> array_type a = arrow_dtype m"
  by (cases m) (auto simp: py_assert_Inr split: sum.splits if_splits dest: pa_array_type)

text \<open>
  Claim C9.  Whenever \<^verbatim>\<open>to_arrow\<close> returns a scalar, its dtype is the converter's
  \<^verbatim>\<open>arrow_dtype\<close>; whenever \<^verbatim>\<open>to_arrow_array\<close> returns an array, its dtype is the
  converter's \<^verbatim>\<open>arrow_dtype\<close>.  This holds for every converter and every input.
\<close>

theorem dtype_stability:
  "(to_arrow m py = Inr s \<longrightarrow> scalar_type s = arrow_dtype m) \<and>
   (to_arrow_array m pys = Inr a \<longrightarrow> array_type a = arrow_dtype m)"
  using to_arrow_type to_arrow_array_type by blast

theorem dtype_stability_witness:
  "to_arrow (ListArrowMarshaller int64) (PList [PInt 1, PInt 2, PInt 3])
     = Inr (Scalar (pa_list pa_int64) (AList [AInt 1, AInt 2, AInt 3])) \<and>
   scalar_type (Scalar (pa_list pa_int64) (AList [AInt 1, AInt 2, AInt 3]))
     = arrow_dtype (ListArrowMarshaller int64) \<and>
   to_arrow_array (ListArrowMarshaller int64) [PList [PInt 1, PInt 2], PList []]
     = Inr (Array (pa_list pa_int64) [AList [AInt 1, AInt 2], AList []]) \<and>
   array_type (Array (pa_list pa_int64) [AList [AInt 1, AInt 2], AList []])
     = arrow_dtype (ListArrowMarshaller int64)"
proof -
  have s: "to_arrow (ListArrowMarshaller int64) (PList [PInt 1, PInt 2, PInt 3])
     = Inr (Scalar (pa_list pa_int64) (AList [AInt 1, AInt 2, AInt 3]))"
    by (simp add: int64_def pa_scalar_def int_range_def py_assert_def)
  have a: "to_arrow_array (ListArrowMarshaller int64) [PList [PInt 1, PInt 2], PList []]
     = Inr (Array (pa_list pa_int64) [AList [AInt 1, AInt 2], AList []])"
    by (simp add: int64_def pa_array_def int_range_def py_assert_def)
  from dtype_stability
    [of "ListArrowMarshaller int64" "PList [PInt 1, PInt 2, PInt 3]"
      "Scalar (pa_list pa_int64) (AList [AInt 1, AInt 2, AInt 3])"
      "[PList [PInt 1, PInt 2], PList []]"
      "Array (pa_list pa_int64) [AList [AInt 1, AInt 2], AList []]"] s a
  show ?thesis by blast
qed

section \<open>Bulk encoding against element-wise encoding\<close>

lemma convert_scalars:
  "\<forall>s \<in> set ss. scalar_type s = t \<Longrightarrow>
   mapM (convert t) (map PScalar ss) = Inr (map scalar_value ss)"
  by (induction ss) auto

lemma mapM_to_arrow_types:
  "mapM (to_arrow m) pys = Inr ss \<Longrightarrow> \<forall>s \<in> set ss. scalar_type s = arrow_dtype m"
  by (induction pys arbitrary: ss) (auto split: sum.splits dest: to_arrow_type)

lemma array_iter_scalars:
  "\<forall>s \<in> set ss. scalar_type s = t \<Longrightarrow> array_iter (Array t (map scalar_value ss)) = ss"
  by (induction ss) (auto simp: array_iter_def)

lemma mapM_pa_scalar:
  "mapM (\<lambda>py. pa_scalar py t) pys = map_sum id array_iter (pa_array pys t)"
  by (induction pys) (auto simp: pa_scalar_def pa_array_def array_iter_def split: sum.splits)

lemma pa_array_scalars:
  "mapM (to_arrow m) pys = Inr ss \<Longrightarrow>
   pa_array (map PScalar ss) (arrow_dtype m) = Inr (Array (arrow_dtype m) (map scalar_value ss))"
  by (simp add: pa_array_def convert_scalars mapM_to_arrow_types)

text \<open>The branch that encodes each element and hands the scalars to \<^verbatim>\<open>pa.array\<close>.\<close>

lemma bulk_via_scalars:
  assumes "c (arrow_dtype m)"
  shows "map_sum id array_iter
           (case (case mapM (to_arrow m) pys of
                    Inl e \<Rightarrow> Inl e
                  | Inr ss \<Rightarrow> pa_array (map PScalar ss) (arrow_dtype m)) of
              Inl e \<Rightarrow> Inl e
            | Inr a \<Rightarrow> py_assert (c (array_type a)) a)
         = mapM (to_arrow m) pys"
proof (cases "mapM (to_arrow m) pys")
  case (Inl e)
  then show ?thesis by simp
next
  case (Inr ss)
  then show ?thesis
    using assms pa_array_scalars [OF Inr] array_iter_scalars [OF mapM_to_arrow_types [OF Inr]]
    by (simp add: py_assert_def)
qed

text \<open>The branch that hands the whole sequence to \<^verbatim>\<open>pa.array\<close>.\<close>

lemma bulk_native:
  assumes "c t" and "\<And>py. to_arrow m py = pa_scalar py t"
  shows "map_sum id array_iter
           (case pa_array pys t of Inl e \<Rightarrow> Inl e | Inr a \<Rightarrow> py_assert (c (array_type a)) a)
         = mapM (to_arrow m) pys"
proof -
  have "to_arrow m = (\<lambda>py. pa_scalar py t)" using assms(2) by auto
  then show ?thesis using assms(1) by (simp add: assert_pa_array mapM_pa_scalar)
qed

lemma to_arrow_array_elementwise:
  "map_sum id array_iter (to_arrow_array m pys) = mapM (to_arrow m) pys"
proof (cases m)
  case (BasicTypeArrowMarshaller p t)
  then show ?thesis
    using mapM_pa_scalar [of t pys] by (simp add: to_arrow.simps [abs_def])
next
  case (ListArrowMarshaller elem)
  show ?thesis
  proof (cases "is_basic elem")
    case True
    have "\<And>py. to_arrow m py = pa_scalar py (arrow_dtype m)"
      using True ListArrowMarshaller by (simp add: assert_pa_scalar [where c = is_list_dtype])
    from bulk_native [where c = is_list_dtype, OF _ this] show ?thesis
      using True ListArrowMarshaller by simp
  next
    case False
    then show ?thesis
      using bulk_via_scalars
        [where c = is_list_dtype and m = "ListArrowMarshaller elem" and pys = pys]
      by (simp add: ListArrowMarshaller)
  qed
next
  case (MapArrowMarshaller key val)
  have *: "\<And>py. to_arrow m py = pa_scalar py (arrow_dtype m)"
    using MapArrowMarshaller by (simp add: assert_pa_scalar [where c = is_map_dtype])
  show ?thesis
  proof (cases "is_basic key \<and> is_basic val")
    case True
    from bulk_native [where c = is_map_dtype, OF _ *] show ?thesis
      using True MapArrowMarshaller by simp
  next
    case False
    show ?thesis
      using bulk_via_scalars
        [where c = is_map_dtype and m = "MapArrowMarshaller key val" and pys = pys]
      by (simp add: MapArrowMarshaller False)
  qed
next
  case (StructArrowMarshaller cls fields)
  then show ?thesis
    using bulk_via_scalars [where c = is_struct_dtype and m = m and pys = pys]
    by (simp add: sum.case_distrib
          [of "case_sum Inl (\<lambda>a. py_assert (is_struct_dtype (array_type a)) a)"]
        cong: sum.case_cong)
qed

lemma from_arrow_array_elementwise:
  "from_arrow_array m a = mapM (from_arrow m) (array_iter a)"
  by (cases m) (auto simp: to_pylist_def array_iter_def as_py_def mapM_map mapM_Inr)



section \<open>What derivation returns\<close>

lemmas singleton_defs =
  null_def boolean_def int8_def int16_def int32_def int64_def uint8_def uint16_def uint32_def
  uint64_def float16_def float32_def float64_def string_def binary_def

lemma derive_top_not_narrow: "derive_arrow_marshaller cls = Inr m \<Longrightarrow> m \<notin> set narrow"
  by (cases cls)
     (auto simp: narrow_def singleton_defs
        map_sum_Inr_iff
        split: builtin.splits sum.splits bool.splits list.splits)

lemma derive_override_free:
  "(\<forall>m. override_free cls \<longrightarrow> derive_arrow_marshaller cls = Inr m
        \<longrightarrow> (\<forall>x \<in> set (converters m). x \<notin> set narrow))"
  "(\<forall>m. metadata_arrow_marshaller f = None \<longrightarrow> override_free (field_type f)
        \<longrightarrow> derive_arrow_marshaller_for_field f = Inr m
        \<longrightarrow> (\<forall>x \<in> set (converters m). x \<notin> set narrow))"
proof (induction cls and f rule: derive_arrow_marshaller_derive_arrow_marshaller_for_field.induct)
  case (1 b)
  then show ?case
    by (auto simp: narrow_def singleton_defs
        split: builtin.splits)
next
  case (2 cls fields)
  show ?case
  proof (intro allI impI ballI)
    fix m x
    assume of: "override_free (dataclass cls fields)"
      and d: "derive_arrow_marshaller (dataclass cls fields) = Inr m"
      and x: "x \<in> set (converters m)"
    from d obtain ms where ms: "mapM (\<lambda>f. map_sum id (Pair (field_name f)) (derive_arrow_marshaller_for_field f)) fields = Inr ms"
      and m: "m = StructArrowMarshaller cls ms"
      by (auto simp: map_sum_Inr_iff)
    show "x \<notin> set narrow"
    proof (cases "x = m")
      case True
      then show ?thesis using m by (auto simp: narrow_def singleton_defs)
    next
      case False
      with x m obtain nm where nm: "nm \<in> set ms" and xin: "x \<in> set (converters (snd nm))"
        by auto
      from mapM_set [OF ms nm] obtain f where f: "f \<in> set fields"
        and df: "map_sum id (Pair (field_name f)) (derive_arrow_marshaller_for_field f) = Inr nm"
        by auto
      from df have df': "derive_arrow_marshaller_for_field f = Inr (snd nm)"
        by (auto simp: map_sum_Inr_iff)
      from of f have "metadata_arrow_marshaller f = None" "override_free (field_type f)"
        by (cases f; auto simp: list_all_iff)+
      with "2.IH" [OF f] df' xin show ?thesis by blast
    qed
  qed
next
  case (3 origin args)
  show ?case
  proof (intro allI impI ballI)
    fix m x
    assume of: "override_free (generic_alias origin args)"
      and d: "derive_arrow_marshaller (generic_alias origin args) = Inr m"
      and x: "x \<in> set (converters m)"
    show "x \<notin> set narrow"
    proof (cases "issubclass_Sequence origin")
      case (Inl e)
      with d show ?thesis by simp
    next
      case (Inr isseq)
      show ?thesis
      proof (cases isseq)
        case True
        with d Inr obtain a rest e where args: "args = a # rest"
          and e: "derive_arrow_marshaller a = Inr e" and m: "m = ListArrowMarshaller e"
          by (auto simp: map_sum_Inr_iff split: list.splits)
        from of args have "override_free a" by simp
        from True have t: "isseq = True" by simp
        from "3.IH"(1) [OF Inr t args] e \<open>override_free a\<close>
        have "\<forall>x \<in> set (converters e). x \<notin> set narrow"
          by blast
        with x m show ?thesis
          by (auto simp: narrow_def singleton_defs)
      next
        case False
        from False have t: "isseq = False" by simp
        from False d Inr obtain a b rest k v where im: "issubclass_Mapping origin = Inr True"
          and args: "args = a # b # rest"
          and k: "derive_arrow_marshaller a = Inr k"
          and v: "derive_arrow_marshaller b = Inr v" and m: "m = MapArrowMarshaller k v"
          by (auto simp: map_sum_Inr_iff split: list.splits sum.splits bool.splits)
        from of args have ofa: "override_free a" and ofb: "override_free b" by simp_all
        from "3.IH"(2) [OF Inr t im refl args] k ofa
        have nk: "\<forall>x \<in> set (converters k). x \<notin> set narrow" by blast
        from "3.IH"(3) [OF Inr t im refl args k refl] v ofb
        have nv: "\<forall>x \<in> set (converters v). x \<notin> set narrow" by blast
        from x m nk nv show ?thesis
          by (auto simp: narrow_def singleton_defs)
      qed
    qed
  qed
next
  case (4 n)
  then show ?case by simp
next
  case (5 f)
  then show ?case by simp
qed

text \<open>
  Claim C10.  \<^verbatim>\<open>derive_arrow_marshaller(int)\<close> is the \<^verbatim>\<open>int64\<close> converter, of dtype
  int64, and \<^verbatim>\<open>derive_arrow_marshaller(float)\<close> is the \<^verbatim>\<open>float64\<close> converter, of
  dtype float64.  Whatever the type, the converter \<^verbatim>\<open>derive_arrow_marshaller\<close> returns
  is none of \<^verbatim>\<open>int8\<close>, \<^verbatim>\<open>int16\<close>, \<^verbatim>\<open>int32\<close>, \<^verbatim>\<open>uint8\<close>, \<^verbatim>\<open>uint16\<close>,
  \<^verbatim>\<open>uint32\<close>, \<^verbatim>\<open>uint64\<close>, \<^verbatim>\<open>float16\<close>, \<^verbatim>\<open>float32\<close>; and when no field
  anywhere in the type carries an override, none of them occurs anywhere in the
  converter tree it returns.
\<close>

theorem derive_never_narrow:
  "derive_arrow_marshaller (builtin_type py_int) = Inr int64 \<and> arrow_dtype int64 = pa_int64 \<and>
   derive_arrow_marshaller (builtin_type py_float) = Inr float64 \<and>
   arrow_dtype float64 = pa_float64 \<and>
   (derive_arrow_marshaller cls = Inr m \<longrightarrow> m \<notin> set narrow) \<and>
   (override_free cls \<and> derive_arrow_marshaller cls = Inr m \<longrightarrow> narrow_free m)"
  using derive_top_not_narrow [of cls m] derive_override_free(1) [of cls]
  by (simp add: int64_def float64_def narrow_free_def list_all_iff)

theorem derive_never_narrow_witness:
  "override_free
     (generic_alias (class_origin ''list'' True False)
        [dataclass ''P'' [PyField ''age'' (builtin_type py_int) None,
                          PyField ''w'' (builtin_type py_float) None]]) \<and>
   derive_arrow_marshaller
     (generic_alias (class_origin ''list'' True False)
        [dataclass ''P'' [PyField ''age'' (builtin_type py_int) None,
                          PyField ''w'' (builtin_type py_float) None]])
     = Inr (ListArrowMarshaller (StructArrowMarshaller ''P'' [(''age'', int64), (''w'', float64)])) \<and>
   ListArrowMarshaller (StructArrowMarshaller ''P'' [(''age'', int64), (''w'', float64)])
     \<notin> set narrow \<and>
   narrow_free (ListArrowMarshaller (StructArrowMarshaller ''P'' [(''age'', int64), (''w'', float64)]))"
proof -
  have o: "override_free
     (generic_alias (class_origin ''list'' True False)
        [dataclass ''P'' [PyField ''age'' (builtin_type py_int) None,
                          PyField ''w'' (builtin_type py_float) None]])"
    by simp
  have d: "derive_arrow_marshaller
     (generic_alias (class_origin ''list'' True False)
        [dataclass ''P'' [PyField ''age'' (builtin_type py_int) None,
                          PyField ''w'' (builtin_type py_float) None]])
     = Inr (ListArrowMarshaller (StructArrowMarshaller ''P'' [(''age'', int64), (''w'', float64)]))"
    by simp
  from derive_never_narrow
    [of "generic_alias (class_origin ''list'' True False)
        [dataclass ''P'' [PyField ''age'' (builtin_type py_int) None,
                          PyField ''w'' (builtin_type py_float) None]]"
      "ListArrowMarshaller (StructArrowMarshaller ''P'' [(''age'', int64), (''w'', float64)])"]
    o d
  show ?thesis by blast
qed

section \<open>Unsupported shapes\<close>

text \<open>
  Claim C6.  A type that is no builtin, no dataclass and has no origin makes
  \<^verbatim>\<open>derive_arrow_marshaller\<close> raise \<^verbatim>\<open>NotImplementedError\<close> naming the type, and so
  does a parameterised generic whose origin is a class that is neither a
  \<^verbatim>\<open>Sequence\<close> nor a \<^verbatim>\<open>Mapping\<close>.  A parameterised special form
  (\<^verbatim>\<open>Literal[...]\<close>, whose origin is not a class) makes it raise the
  \<^verbatim>\<open>TypeError\<close> of \<^verbatim>\<open>issubclass\<close> instead.
\<close>

theorem derive_unsupported_shape:
  "derive_arrow_marshaller (other_type n) = Inl (NotImplementedError (other_type n)) \<and>
   derive_arrow_marshaller (generic_alias (class_origin c False False) args)
     = Inl (NotImplementedError (generic_alias (class_origin c False False) args)) \<and>
   derive_arrow_marshaller (generic_alias (special_form f) args) = Inl issubclass_TypeError"
  by simp

section \<open>What the converters check\<close>

lemma is_basic_from_arrow: "is_basic m \<Longrightarrow> from_arrow m s = Inr (as_py s)"
  by (cases m) auto




section \<open>Decoding a struct\<close>

lemma mapM_all_Inr:
  "(\<And>x. x \<in> set xs \<Longrightarrow> f x = Inr (h x)) \<Longrightarrow> mapM f xs = Inr (map h xs)"
  by (induction xs) auto

lemma dict_get_dict_set:
  "dict_get (dict_set acc k v) k' = (if k' = k then Some v else dict_get acc k')"
  by (induction acc) auto

lemma dict_set_keys: "fst ` set (dict_set acc k v) = insert k (fst ` set acc)"
  by (induction acc) (force split: if_splits)+

lemma dict_get_None_iff: "dict_get kvs k = None \<longleftrightarrow> k \<notin> fst ` set kvs"
  by (induction kvs) (auto split: if_splits)

lemma fold_dict_set_keys:
  "fst ` set (fold (\<lambda>kv acc. dict_set acc (fst kv) (snd kv)) kvs acc)
     = fst ` set acc \<union> fst ` set kvs"
  by (induction kvs arbitrary: acc) (simp_all add: dict_set_keys)

lemma fold_dict_set_get:
  assumes "\<And>k. dict_get acc k = (if k \<in> K then Some (g k) else None)"
    and "\<And>kv. kv \<in> set kvs \<Longrightarrow> snd kv = g (fst kv)"
  shows "dict_get (fold (\<lambda>kv acc. dict_set acc (fst kv) (snd kv)) kvs acc) k
     = (if k \<in> K \<union> fst ` set kvs then Some (g k) else None)"
  using assms
proof (induction kvs arbitrary: acc K)
  case Nil
  then show ?case by simp
next
  case (Cons kv kvs)
  have "\<And>k. dict_get (dict_set acc (fst kv) (snd kv)) k
      = (if k \<in> insert (fst kv) K then Some (g k) else None)"
    using Cons.prems by (simp add: dict_get_dict_set)
  from Cons.IH [OF this] Cons.prems(2) show ?case by auto
qed

lemma field_scalars_keys:
  "length vs = length fts \<Longrightarrow> fst ` set (field_scalars fts vs) = fst ` set fts"
  by (induction fts vs rule: field_scalars.induct) auto

text \<open>
  Decoding a struct scalar whose items are known: the keyword arguments are built from
  the items in their physical order, and the record is built from the keyword
  arguments in declaration order.
\<close>

lemma struct_decode:
  assumes items: "StructScalar_items s = Inr items"
    and names: "fst ` set items = fst ` set fields"
    and child: "\<And>n sc child. (n, sc) \<in> set items \<Longrightarrow>
                  dict_get fields n = Some child \<Longrightarrow> from_arrow child sc = Inr (g n)"
  shows "from_arrow (StructArrowMarshaller cls fields) s
           = Inr (PObj cls (map (\<lambda>n. (n, g n)) (map fst fields)))"
proof -
  let ?F = "\<lambda>fv. case dict_get fields (fst fv) of
                    None \<Rightarrow> Inl (KeyError (fst fv))
                  | Some m \<Rightarrow> map_sum id (Pair (fst fv)) (from_arrow m (snd fv))"
  let ?kvs = "map (\<lambda>fv. (fst fv, g (fst fv))) items"
  let ?kwargs = "fold (\<lambda>kv acc. dict_set acc (fst kv) (snd kv)) ?kvs []"
  have "\<And>fv. fv \<in> set items \<Longrightarrow> ?F fv = Inr (fst fv, g (fst fv))"
  proof -
    fix fv assume fv: "fv \<in> set items"
    then have "fst fv \<in> fst ` set fields" using names by force
    then obtain m where m: "dict_get fields (fst fv) = Some m"
      using dict_get_None_iff [of fields "fst fv"] by auto
    moreover have "from_arrow m (snd fv) = Inr (g (fst fv))"
      using child [of "fst fv" "snd fv" m] fv m by simp
    ultimately show "?F fv = Inr (fst fv, g (fst fv))" by simp
  qed
  then have mapM: "mapM ?F items = Inr ?kvs" by (rule mapM_all_Inr)
  have get: "\<And>n. dict_get ?kwargs n = (if n \<in> fst ` set fields then Some (g n) else None)"
  proof -
    fix n
    have "dict_get ?kwargs n = (if n \<in> {} \<union> fst ` set ?kvs then Some (g n) else None)"
      by (rule fold_dict_set_get) auto
    moreover have "fst ` set ?kvs = fst ` set items" by force
    ultimately show "dict_get ?kwargs n = (if n \<in> fst ` set fields then Some (g n) else None)"
      using names by simp
  qed
  have kk: "fst ` set ?kwargs = fst ` set fields"
    using names by (simp add: fold_dict_set_keys image_image)
  have init: "dataclass_init cls (map fst fields) ?kwargs
                = Inr (PObj cls (map (\<lambda>n. (n, g n)) (map fst fields)))"
    unfolding dataclass_init_def using kk get by (auto simp: list_all_iff)
  show ?thesis using items mapM init by simp
qed

text \<open>
  Claim C7.  Decoding a struct scalar does not depend on the physical order of its
  fields: when the field names of the scalar's dtype are, as a set, the converter's
  declared field names, and each field's scalar is decoded by the converter declared for
  that name (to \<open>g n\<close> for the field \<open>n\<close>), \<^verbatim>\<open>from_arrow\<close> succeeds and returns the
  record of the converter's class whose attributes are, in declaration order, those
  decoded values.
\<close>

theorem struct_decoding_order_independent:
  assumes len: "length vs = length fts"
    and names: "set (map fst fts) = set (map fst fields)"
    and child: "\<And>n sc child. (n, sc) \<in> set (field_scalars fts vs) \<Longrightarrow>
                  dict_get fields n = Some child \<Longrightarrow> from_arrow child sc = Inr (g n)"
  shows "from_arrow (StructArrowMarshaller cls fields) (Scalar (pa_struct fts) (AStruct vs))
           = Inr (PObj cls (map (\<lambda>n. (n, g n)) (map fst fields)))"
proof (rule struct_decode)
  show "StructScalar_items (Scalar (pa_struct fts) (AStruct vs)) = Inr (field_scalars fts vs)"
    using len by simp
  show "fst ` set (field_scalars fts vs) = fst ` set fields"
    using field_scalars_keys [OF len] names by simp
qed (rule child)

theorem struct_decoding_order_independent_witness:
  "from_arrow
     (StructArrowMarshaller ''Person'' [(''name'', string), (''age'', int64), (''gender'', boolean)])
     (Scalar (pa_struct [(''gender'', pa_bool), (''name'', pa_string), (''age'', pa_int64)])
        (AStruct [ABool True, AStr ''Ada'', AInt 36]))
     = Inr (PObj ''Person'' [(''name'', PStr ''Ada''), (''age'', PInt 36), (''gender'', PBool True)])"
proof -
  let ?g = "\<lambda>n. if n = ''name'' then PStr ''Ada'' else if n = ''age'' then PInt 36 else PBool True"
  have "from_arrow
     (StructArrowMarshaller ''Person'' [(''name'', string), (''age'', int64), (''gender'', boolean)])
     (Scalar (pa_struct [(''gender'', pa_bool), (''name'', pa_string), (''age'', pa_int64)])
        (AStruct [ABool True, AStr ''Ada'', AInt 36]))
     = Inr (PObj ''Person''
         (map (\<lambda>n. (n, ?g n))
            (map fst [(''name'', string), (''age'', int64), (''gender'', boolean)])))"
    by (rule struct_decoding_order_independent)
       (auto simp: string_def int64_def boolean_def as_py_def)
  then show ?thesis by simp
qed

section \<open>Decoding a map\<close>

lemma dict_comprehension_all_Inr:
  "(\<And>x. x \<in> set xs \<Longrightarrow> f x = Inr (h x)) \<Longrightarrow>
   dict_comprehension f xs acc = dict_comprehension Inr (map h xs) acc"
  by (induction xs arbitrary: acc) auto

text \<open>
  Claim C8, amended.  On every map scalar that is not null, the two branches of
  \<^verbatim>\<open>MapArrowMarshaller.from_arrow\<close> give the same result when both children are basic:
  the same dict with the same pairing of keys and values, a later entry overwriting an
  earlier one with the same key, or the same \<^verbatim>\<open>TypeError\<close> on an unhashable key.
\<close>

theorem map_decoding_paths_agree:
  assumes "is_basic key" and "is_basic val"
  shows "map_from_arrow_indexed (from_arrow key) (from_arrow val) (Scalar (pa_map k w) (AMap kvs))
           = map_from_arrow_native (Scalar (pa_map k w) (AMap kvs))"
proof -
  let ?h = "\<lambda>kv. (value_as_py k (fst kv), value_as_py w (snd kv))"
  let ?f = "\<lambda>i. case MapScalar_getitem (Scalar (pa_map k w) (AMap kvs)) i of
                   Inl e \<Rightarrow> Inl e
                 | Inr kw \<Rightarrow>
                     (case from_arrow key (fst kw) of
                        Inl e \<Rightarrow> Inl e
                      | Inr k \<Rightarrow>
                          (case from_arrow val (snd kw) of
                             Inl e \<Rightarrow> Inl e
                           | Inr v \<Rightarrow> Inr (k, v)))"
  have "\<And>i. i \<in> set [0 ..< length kvs] \<Longrightarrow> ?f i = Inr (?h (kvs ! i))"
    using assms by (simp add: is_basic_from_arrow as_py_def)
  then have "dict_comprehension ?f [0 ..< length kvs] []
               = dict_comprehension Inr (map (\<lambda>i. ?h (kvs ! i)) [0 ..< length kvs]) []"
    by (rule dict_comprehension_all_Inr)
  moreover have "map (\<lambda>i. ?h (kvs ! i)) [0 ..< length kvs] = map ?h kvs"
    by (rule nth_equalityI) simp_all
  ultimately show ?thesis
    by (simp add: map_from_arrow_indexed_def map_from_arrow_native_def)
qed

theorem map_decoding_paths_agree_witness:
  "map_from_arrow_indexed (from_arrow string) (from_arrow int64)
     (Scalar (pa_map pa_string pa_int64) (AMap [(AStr ''a'', AInt 1), (AStr ''a'', AInt 2)]))
     = Inr (PDict [(PStr ''a'', PInt 2)])"
proof -
  have "map_from_arrow_native
     (Scalar (pa_map pa_string pa_int64) (AMap [(AStr ''a'', AInt 1), (AStr ''a'', AInt 2)]))
     = Inr (PDict [(PStr ''a'', PInt 2)])"
    by (simp add: map_from_arrow_native_def)
  moreover have "is_basic string" "is_basic int64"
    by (simp_all add: string_def int64_def)
  ultimately show ?thesis
    using map_decoding_paths_agree
      [of string int64 pa_string pa_int64 "[(AStr ''a'', AInt 1), (AStr ''a'', AInt 2)]"]
    by simp
qed

text \<open>
  Claim C8, as stated, fails on the null map scalar: iterating it yields nothing, so
  the first branch returns the empty dict, while the second takes its length and
  raises \<^verbatim>\<open>TypeError\<close>.
\<close>

theorem map_decoding_paths_null_counterexample:
  "map_from_arrow_native (Scalar (pa_map pa_string pa_int64) ANull) = Inr (PDict []) \<and>
   map_from_arrow_indexed (from_arrow string) (from_arrow int64)
     (Scalar (pa_map pa_string pa_int64) ANull) = Inl TypeError"
  by (simp add: map_from_arrow_native_def map_from_arrow_indexed_def)

section \<open>The round trip where it holds\<close>

lemma mapM_all_Inr':
  "(\<And>x. x \<in> set xs \<Longrightarrow> \<exists>y. f x = Inr y \<and> P x y) \<Longrightarrow>
   \<exists>ys. mapM f xs = Inr ys \<and> list_all2 P xs ys"
proof (induction xs)
  case Nil
  then show ?case by simp
next
  case (Cons x xs)
  from Cons.prems [of x] obtain y where y: "f x = Inr y" "P x y" by auto
  from Cons.IH Cons.prems obtain ys where ys: "mapM f xs = Inr ys" "list_all2 P xs ys"
    by auto
  from y ys show ?case by auto
qed

lemma mapM_list_all2:
  "list_all2 (\<lambda>x y. f x = Inr y) xs ys \<Longrightarrow> mapM f xs = Inr ys"
  by (induction xs ys rule: list_all2_induct) auto

lemma dict_set_fresh: "k \<notin> fst ` set acc \<Longrightarrow> dict_set acc k v = acc @ [(k, v)]"
  by (induction acc) auto

lemma dict_comprehension_distinct:
  "distinct (map fst (acc @ kvs)) \<Longrightarrow> list_all (\<lambda>kv. hashable (fst kv)) kvs \<Longrightarrow>
   dict_comprehension Inr kvs acc = Inr (PDict (acc @ kvs))"
proof (induction kvs arbitrary: acc)
  case Nil
  then show ?case by simp
next
  case (Cons kv kvs)
  have "fst kv \<notin> fst ` set acc" using Cons.prems(1) by auto
  then have "dict_set acc (fst kv) (snd kv) = acc @ [kv]" by (simp add: dict_set_fresh)
  moreover have "distinct (map fst ((acc @ [kv]) @ kvs))" using Cons.prems(1) by simp
  ultimately show ?case using Cons.IH [of "acc @ [kv]"] Cons.prems(2) by simp
qed

lemma native_round_trip:
  "native m \<Longrightarrow> conforms m v \<Longrightarrow>
   \<exists>a. convert (arrow_dtype m) v = Inr a \<and> from_arrow m (Scalar (arrow_dtype m) a) = Inr v
       \<and> (v \<noteq> PNone \<longrightarrow> a \<noteq> ANull)"
proof (induction m arbitrary: v)
  case (BasicTypeArrowMarshaller p t)
  then show ?case
    by (cases v; cases t) (auto simp: int_range_def as_py_def is_float_def)
next
  case (ListArrowMarshaller elem)
  from ListArrowMarshaller.prems obtain xs where v: "v = PList xs"
    and xs: "list_all (conforms elem) xs" and n: "native elem"
    by (auto split: pyval.splits)
  let ?d = "arrow_dtype elem"
  have "\<And>x. x \<in> set xs \<Longrightarrow>
          \<exists>a. convert ?d x = Inr a \<and> from_arrow elem (Scalar ?d a) = Inr x"
    using ListArrowMarshaller.IH [OF n] xs by (auto simp: list_all_iff)
  from mapM_all_Inr' [of xs "convert ?d" "\<lambda>x a. from_arrow elem (Scalar ?d a) = Inr x", OF this]
  obtain as where as: "mapM (convert ?d) xs = Inr as"
    and dec: "list_all2 (\<lambda>x a. from_arrow elem (Scalar ?d a) = Inr x) xs as"
    by auto
  have conv: "convert (pa_list ?d) v = Inr (AList as)" using v as by simp
  have "from_arrow (ListArrowMarshaller elem) (Scalar (pa_list ?d) (AList as)) = Inr v"
  proof (cases "is_basic elem")
    case True
    from dec have "list_all2 (\<lambda>x a. value_as_py ?d a = x) xs as"
      using True by (auto simp: is_basic_from_arrow as_py_def elim!: list_all2_mono)
    then have "map (value_as_py ?d) as = xs"
      by (induction xs as rule: list_all2_induct) auto
    then show ?thesis using True v by (simp add: as_py_def)
  next
    case False
    from dec have "list_all2 (\<lambda>s x. from_arrow elem s = Inr x) (map (Scalar ?d) as) xs"
      by (simp add: list_all2_map1 list_all2_conv_all_nth)
    then have "mapM (from_arrow elem) (map (Scalar ?d) as) = Inr xs"
      by (rule mapM_list_all2)
    then show ?thesis using False v by simp
  qed
  with conv show ?case by auto
next
  case (MapArrowMarshaller key val)
  from MapArrowMarshaller.prems obtain kvs where v: "v = PDict kvs"
    and dist: "distinct (map fst kvs)"
    and kvs: "list_all (\<lambda>kv. hashable (fst kv) \<and> conforms key (fst kv) \<and> conforms val (snd kv)) kvs"
    and bk: "is_basic key" and nn: "arrow_dtype key \<noteq> pa_null" and nv: "native val"
    by (auto split: pyval.splits)
  let ?dk = "arrow_dtype key" and ?dw = "arrow_dtype val"
  from bk have nk: "native key" by (cases key) auto
  have entry: "\<And>kv. kv \<in> set kvs \<Longrightarrow>
     \<exists>e. convert_entry (convert ?dk) (convert ?dw) kv = Inr e \<and>
         (from_arrow key (Scalar ?dk (fst e)) = Inr (fst kv) \<and>
          from_arrow val (Scalar ?dw (snd e)) = Inr (snd kv))"
  proof -
    fix kv assume kv: "kv \<in> set kvs"
    with kvs have ck: "conforms key (fst kv)" and cw: "conforms val (snd kv)"
      by (auto simp: list_all_iff)
    from ck bk nn have "fst kv \<noteq> PNone" by (cases key) (auto split: pyval.splits)
    with MapArrowMarshaller.IH(1) [OF nk ck] obtain ka where
      ka: "convert ?dk (fst kv) = Inr ka" "from_arrow key (Scalar ?dk ka) = Inr (fst kv)" "ka \<noteq> ANull"
      by auto
    from MapArrowMarshaller.IH(2) [OF nv cw] obtain wa where
      wa: "convert ?dw (snd kv) = Inr wa" "from_arrow val (Scalar ?dw wa) = Inr (snd kv)"
      by auto
    from ka wa show "\<exists>e. convert_entry (convert ?dk) (convert ?dw) kv = Inr e \<and>
         (from_arrow key (Scalar ?dk (fst e)) = Inr (fst kv) \<and>
          from_arrow val (Scalar ?dw (snd e)) = Inr (snd kv))"
      by (simp add: convert_entry_def)
  qed
  from mapM_all_Inr' [of kvs "convert_entry (convert ?dk) (convert ?dw)"
      "\<lambda>kv e. from_arrow key (Scalar ?dk (fst e)) = Inr (fst kv) \<and>
          from_arrow val (Scalar ?dw (snd e)) = Inr (snd kv)", OF entry]
  obtain es where es: "mapM (convert_entry (convert ?dk) (convert ?dw)) kvs = Inr es"
    and dec: "list_all2 (\<lambda>kv e. from_arrow key (Scalar ?dk (fst e)) = Inr (fst kv) \<and>
          from_arrow val (Scalar ?dw (snd e)) = Inr (snd kv)) kvs es"
    by auto
  have conv: "convert (pa_map ?dk ?dw) v = Inr (AMap es)" using v es by simp
  have hk: "list_all (\<lambda>kv. hashable (fst kv)) kvs" using kvs by (auto simp: list_all_iff)
  have build: "dict_comprehension Inr kvs [] = Inr (PDict kvs)"
    using dict_comprehension_distinct [of "[]" kvs] dist hk by simp
  have len: "length es = length kvs" using dec by (simp add: list_all2_lengthD)
  have "from_arrow (MapArrowMarshaller key val) (Scalar (pa_map ?dk ?dw) (AMap es)) = Inr v"
  proof (cases "is_basic val")
    case True
    from dec have "list_all2 (\<lambda>kv e. (value_as_py ?dk (fst e), value_as_py ?dw (snd e)) = kv) kvs es"
      using True bk by (auto simp: is_basic_from_arrow as_py_def prod_eq_iff elim!: list_all2_mono)
    then have "map (\<lambda>e. (value_as_py ?dk (fst e), value_as_py ?dw (snd e))) es = kvs"
      by (induction kvs es rule: list_all2_induct) auto
    then show ?thesis using True bk v build by (simp add: map_from_arrow_native_def)
  next
    case False
    let ?f = "\<lambda>i. case MapScalar_getitem (Scalar (pa_map ?dk ?dw) (AMap es)) i of
                   Inl e \<Rightarrow> Inl e
                 | Inr kw \<Rightarrow>
                     (case from_arrow key (fst kw) of
                        Inl e \<Rightarrow> Inl e
                      | Inr k \<Rightarrow>
                          (case from_arrow val (snd kw) of
                             Inl e \<Rightarrow> Inl e
                           | Inr v \<Rightarrow> Inr (k, v)))"
    have "\<And>i. i \<in> set [0 ..< length es] \<Longrightarrow> ?f i = Inr (kvs ! i)"
      using dec len by (auto simp: list_all2_conv_all_nth)
    then have "dict_comprehension ?f [0 ..< length es] []
                 = dict_comprehension Inr (map (\<lambda>i. kvs ! i) [0 ..< length es]) []"
      by (rule dict_comprehension_all_Inr)
    moreover have "map (\<lambda>i. kvs ! i) [0 ..< length es] = kvs"
      using len by (simp add: map_nth)
    ultimately show ?thesis using False v build by (simp add: map_from_arrow_indexed_def)
  qed
  with conv show ?case by auto
next
  case (StructArrowMarshaller cls fields)
  then show ?case by simp
qed

lemma convert_fields_mapM:
  "convert_fields fts d
     = mapM (\<lambda>nt. convert (snd nt) (case dict_get d (PStr (fst nt)) of None \<Rightarrow> PNone | Some x \<Rightarrow> x)) fts"
  by (induction fts) (auto split: sum.splits)

lemma dict_get_attrs:
  "dict_get (map (\<lambda>kv. (PStr (fst kv), snd kv)) kvs) (PStr n) = dict_get kvs n"
  by (induction kvs) auto

lemma dict_get_distinct:
  "distinct (map fst kvs) \<Longrightarrow> (k, v) \<in> set kvs \<Longrightarrow> dict_get kvs k = Some v"
  by (induction kvs) (auto simp: rev_image_eqI)

lemma conforms_fields_names: "conforms_fields fields kvs \<Longrightarrow> map fst kvs = map fst fields"
  by (induction fields arbitrary: kvs) (auto split: list.splits)

lemma conforms_fields_nth:
  "conforms_fields fields kvs \<Longrightarrow> i < length fields \<Longrightarrow>
   fst (kvs ! i) = fst (fields ! i) \<and> conforms (snd (fields ! i)) (snd (kvs ! i))"
proof (induction fields arbitrary: kvs i)
  case Nil
  then show ?case by simp
next
  case (Cons f fields)
  then show ?case by (cases kvs; cases i) auto
qed

lemma field_scalars_nth:
  "length vs = length fts \<Longrightarrow> (n, sc) \<in> set (field_scalars fts vs) \<Longrightarrow>
   \<exists>i < length fts. n = fst (fts ! i) \<and> sc = Scalar (snd (fts ! i)) (vs ! i)"
proof (induction fts vs rule: field_scalars.induct)
  case (1 n' t fts v vs)
  then show ?case by (auto simp: nth_Cons split: nat.splits)
qed auto

text \<open>
  A conforming value of a converter that is \<open>round_trip_ok\<close> is encoded, and the
  scalar is decoded to the value.  The decoded value is the same value, item for item
  and in the same order, which is more than \<^verbatim>\<open>==\<close> asks of dicts.
\<close>

lemma round_trip:
  "round_trip_ok m \<Longrightarrow> conforms m v \<Longrightarrow> \<exists>s. to_arrow m v = Inr s \<and> from_arrow m s = Inr v"
proof (induction m arbitrary: v)
  case (BasicTypeArrowMarshaller p t)
  from native_round_trip [of "BasicTypeArrowMarshaller p t" v] BasicTypeArrowMarshaller.prems
  show ?case by (auto simp: pa_scalar_def)
next
  case (ListArrowMarshaller elem)
  let ?d = "arrow_dtype elem"
  show ?case
  proof (cases "is_basic elem")
    case True
    then have "native (ListArrowMarshaller elem)" by (cases elem) auto
    from native_round_trip [OF this ListArrowMarshaller.prems(2)] True
    show ?thesis by (auto simp: pa_scalar_def py_assert_def)
  next
    case False
    from ListArrowMarshaller.prems obtain xs where v: "v = PList xs"
      and xs: "list_all (conforms elem) xs" and ok: "round_trip_ok elem"
      by (auto split: pyval.splits)
    have "\<And>x. x \<in> set xs \<Longrightarrow> \<exists>s. to_arrow elem x = Inr s \<and> from_arrow elem s = Inr x"
      using ListArrowMarshaller.IH [OF ok] xs by (auto simp: list_all_iff)
    from mapM_all_Inr' [of xs "to_arrow elem" "\<lambda>x s. from_arrow elem s = Inr x", OF this]
    obtain ss where ss: "mapM (to_arrow elem) xs = Inr ss"
      and dec: "list_all2 (\<lambda>x s. from_arrow elem s = Inr x) xs ss"
      by auto
    have ty: "\<forall>s \<in> set ss. scalar_type s = ?d" using mapM_to_arrow_types [OF ss] .
    have enc: "to_arrow (ListArrowMarshaller elem) v
                 = Inr (Scalar (pa_list ?d) (AList (map scalar_value ss)))"
      using False v ss convert_scalars [OF ty] by (simp add: pa_scalar_def py_assert_def)
    have "map (Scalar ?d) (map scalar_value ss) = ss"
      using array_iter_scalars [OF ty] by (simp add: array_iter_def)
    moreover have "mapM (from_arrow elem) ss = Inr xs"
      using dec by (intro mapM_list_all2) (simp add: list_all2_conv_all_nth)
    ultimately have "from_arrow (ListArrowMarshaller elem)
                       (Scalar (pa_list ?d) (AList (map scalar_value ss))) = Inr v"
      using False v by simp
    with enc show ?thesis by simp
  qed
next
  case (MapArrowMarshaller key val)
  then have "native (MapArrowMarshaller key val)" by simp
  from native_round_trip [OF this MapArrowMarshaller.prems(2)]
  show ?case by (auto simp: pa_scalar_def py_assert_def)
next
  case (StructArrowMarshaller cls fields)
  from StructArrowMarshaller.prems obtain kvs where v: "v = PObj cls kvs"
    and cf: "conforms_fields fields kvs"
    and dist: "distinct (map fst fields)" and nat: "list_all (\<lambda>f. native (snd f)) fields"
    by (auto split: pyval.splits)
  let ?fts = "map (\<lambda>f. (fst f, arrow_dtype (snd f))) fields"
  let ?d = "map (\<lambda>kv. (PStr (fst kv), snd kv)) kvs"
  let ?g = "\<lambda>n. case dict_get kvs n of None \<Rightarrow> PNone | Some x \<Rightarrow> x"
  let ?conv = "\<lambda>nt. convert (snd nt) (case dict_get ?d (PStr (fst nt)) of None \<Rightarrow> PNone | Some x \<Rightarrow> x)"
  have names: "map fst kvs = map fst fields" using cf by (rule conforms_fields_names)
  have len: "length kvs = length fields" using names by (metis length_map)
  have dk: "distinct (map fst kvs)" using names dist by simp
  have gi: "\<And>i. i < length fields \<Longrightarrow> ?g (fst (fields ! i)) = snd (kvs ! i)"
  proof -
    fix i assume i: "i < length fields"
    then have "fst (kvs ! i) = fst (fields ! i)" using conforms_fields_nth [OF cf i] by simp
    moreover have "(fst (kvs ! i), snd (kvs ! i)) \<in> set kvs" using i len by simp
    ultimately show "?g (fst (fields ! i)) = snd (kvs ! i)"
      using dict_get_distinct [OF dk] by (metis option.simps(5))
  qed
  have kvs_eq: "kvs = map (\<lambda>n. (n, ?g n)) (map fst fields)"
  proof (rule nth_equalityI)
    show "length kvs = length (map (\<lambda>n. (n, ?g n)) (map fst fields))" using len by simp
  next
    fix i assume "i < length kvs"
    then have i: "i < length fields" using len by simp
    from conforms_fields_nth [OF cf i] gi [OF i] i
    show "kvs ! i = map (\<lambda>n. (n, ?g n)) (map fst fields) ! i"
      by (simp add: prod_eq_iff)
  qed
  have each: "\<And>nt. nt \<in> set ?fts \<Longrightarrow>
     \<exists>a. ?conv nt = Inr a \<and>
       (\<forall>child. dict_get fields (fst nt) = Some child \<longrightarrow>
           from_arrow child (Scalar (snd nt) a) = Inr (?g (fst nt)))"
  proof -
    fix nt assume "nt \<in> set ?fts"
    then obtain i where i: "i < length fields" and nt: "nt = (fst (fields ! i), arrow_dtype (snd (fields ! i)))"
      by (auto simp: in_set_conv_nth)
    let ?m = "snd (fields ! i)"
    have m: "dict_get fields (fst (fields ! i)) = Some ?m"
      using dict_get_distinct [OF dist, of "fst (fields ! i)" ?m] i by simp
    have nm: "native ?m" using nat i by (simp add: list_all_iff)
    have cm: "conforms ?m (?g (fst (fields ! i)))"
      using conforms_fields_nth [OF cf i] gi [OF i] by simp
    from native_round_trip [OF nm cm] obtain a where
      a: "convert (arrow_dtype ?m) (?g (fst (fields ! i))) = Inr a"
         "from_arrow ?m (Scalar (arrow_dtype ?m) a) = Inr (?g (fst (fields ! i)))"
      by auto
    show "\<exists>a. ?conv nt = Inr a \<and>
       (\<forall>child. dict_get fields (fst nt) = Some child \<longrightarrow>
           from_arrow child (Scalar (snd nt) a) = Inr (?g (fst nt)))"
      using a m nt by (simp add: dict_get_attrs)
  qed
  from mapM_all_Inr' [of ?fts ?conv
      "\<lambda>nt a. \<forall>child. dict_get fields (fst nt) = Some child \<longrightarrow>
           from_arrow child (Scalar (snd nt) a) = Inr (?g (fst nt))", OF each]
  obtain as where as: "mapM ?conv ?fts = Inr as"
    and dec: "list_all2 (\<lambda>nt a. \<forall>child. dict_get fields (fst nt) = Some child \<longrightarrow>
           from_arrow child (Scalar (snd nt) a) = Inr (?g (fst nt))) ?fts as"
    by auto
  have la: "length as = length ?fts" using list_all2_lengthD [OF dec] by simp
  have enc: "to_arrow (StructArrowMarshaller cls fields) v = Inr (Scalar (pa_struct ?fts) (AStruct as))"
    using v as by (simp add: pa_scalar_def convert_fields_mapM py_assert_def)
  have items: "StructScalar_items (Scalar (pa_struct ?fts) (AStruct as)) = Inr (field_scalars ?fts as)"
    using la by simp
  have inames: "fst ` set (field_scalars ?fts as) = fst ` set fields"
    using field_scalars_keys [OF la] by (simp add: image_image)
  have child: "\<And>n sc child. (n, sc) \<in> set (field_scalars ?fts as) \<Longrightarrow>
                  dict_get fields n = Some child \<Longrightarrow> from_arrow child sc = Inr (?g n)"
  proof -
    fix n sc child
    assume "(n, sc) \<in> set (field_scalars ?fts as)" and c: "dict_get fields n = Some child"
    from field_scalars_nth [OF la this(1)] obtain i where i: "i < length ?fts"
      and n: "n = fst (?fts ! i)" and sc: "sc = Scalar (snd (?fts ! i)) (as ! i)"
      by auto
    from dec i have "\<forall>child. dict_get fields (fst (?fts ! i)) = Some child \<longrightarrow>
           from_arrow child (Scalar (snd (?fts ! i)) (as ! i)) = Inr (?g (fst (?fts ! i)))"
      by (simp add: list_all2_conv_all_nth)
    with n sc c show "from_arrow child sc = Inr (?g n)" by simp
  qed
  from struct_decode [OF items inames child, where cls = cls]
  have "from_arrow (StructArrowMarshaller cls fields) (Scalar (pa_struct ?fts) (AStruct as)) = Inr v"
    using v kvs_eq by simp
  with enc show ?case by simp
qed

text \<open>The same for sequences, through the element-wise characterisation of the bulk paths.\<close>

lemma array_round_trip:
  assumes "round_trip_ok m" and "list_all (conforms m) xs"
  shows "\<exists>a. to_arrow_array m xs = Inr a \<and> from_arrow_array m a = Inr xs"
proof -
  have "\<And>x. x \<in> set xs \<Longrightarrow> \<exists>s. to_arrow m x = Inr s \<and> from_arrow m s = Inr x"
    using assms round_trip [of m] by (auto simp: list_all_iff)
  from mapM_all_Inr' [of xs "to_arrow m" "\<lambda>x s. from_arrow m s = Inr x", OF this]
  obtain ss where ss: "mapM (to_arrow m) xs = Inr ss"
    and dec: "list_all2 (\<lambda>x s. from_arrow m s = Inr x) xs ss"
    by auto
  from ss to_arrow_array_elementwise [of m xs]
  obtain a where a: "to_arrow_array m xs = Inr a" and it: "array_iter a = ss"
    by (auto simp: map_sum_Inr_iff)
  have "mapM (from_arrow m) ss = Inr xs"
    using dec by (intro mapM_list_all2) (simp add: list_all2_conv_all_nth)
  with a it show ?thesis by (simp add: from_arrow_array_elementwise)
qed

section \<open>Records inside maps and records\<close>

text \<open>
  Claim C4.  \<^verbatim>\<open>MapArrowMarshaller.to_arrow\<close> has one path: it hands the dict to the
  engine whatever the children are.  For a map from strings to records it fails, because
  the engine does not accept a dataclass instance, where the encoding by entries the
  specification describes succeeds.
\<close>

theorem map_to_arrow_single_path:
  "to_arrow (MapArrowMarshaller string (StructArrowMarshaller ''Inner'' [(''x'', int64)]))
     (PDict [(PStr ''a'', PObj ''Inner'' [(''x'', PInt 1)])])
     = Inl ArrowError \<and>
   map_to_scalar_spec string (StructArrowMarshaller ''Inner'' [(''x'', int64)])
     (PDict [(PStr ''a'', PObj ''Inner'' [(''x'', PInt 1)])])
     = Inr (Scalar (pa_map pa_string (pa_struct [(''x'', pa_int64)]))
              (AMap [(AStr ''a'', AStruct [AInt 1])]))"
  by (simp add: map_to_scalar_spec_def string_def int64_def pa_scalar_def convert_entry_def
        int_range_def py_assert_def)

text \<open>
  Claim C1.  The round trip \<^verbatim>\<open>from_arrow(to_arrow(v)) == v\<close> holds for the converters
  of \<open>round_trip_ok\<close> (lemma \<open>round_trip\<close>), and fails for a record with a record
  field: the value conforms to the converter derived for its class, \<^verbatim>\<open>to_arrow\<close>
  hands the attribute dict, which still holds the inner dataclass instance, to the
  engine, and the engine rejects it.  \<^verbatim>\<open>from_arrow\<close> does decode the scalar such a
  value should be encoded to.
\<close>

theorem round_trip_nested_record_fails:
  "derive_arrow_marshaller
     (dataclass ''Outer''
        [PyField ''inner'' (dataclass ''Inner'' [PyField ''x'' (builtin_type py_int) None]) None])
     = Inr (StructArrowMarshaller ''Outer''
              [(''inner'', StructArrowMarshaller ''Inner'' [(''x'', int64)])]) \<and>
   conforms
     (StructArrowMarshaller ''Outer'' [(''inner'', StructArrowMarshaller ''Inner'' [(''x'', int64)])])
     (PObj ''Outer'' [(''inner'', PObj ''Inner'' [(''x'', PInt 1)])]) \<and>
   to_arrow
     (StructArrowMarshaller ''Outer'' [(''inner'', StructArrowMarshaller ''Inner'' [(''x'', int64)])])
     (PObj ''Outer'' [(''inner'', PObj ''Inner'' [(''x'', PInt 1)])])
     = Inl ArrowError \<and>
   from_arrow
     (StructArrowMarshaller ''Outer'' [(''inner'', StructArrowMarshaller ''Inner'' [(''x'', int64)])])
     (Scalar (pa_struct [(''inner'', pa_struct [(''x'', pa_int64)])]) (AStruct [AStruct [AInt 1]]))
     = Inr (PObj ''Outer'' [(''inner'', PObj ''Inner'' [(''x'', PInt 1)])])"
  by (simp add: int64_def pa_scalar_def int_range_def dataclass_init_def as_py_def)

text \<open>
  Claim C2.  The array round trip \<^verbatim>\<open>from_arrow_array(to_arrow_array(xs)) == xs\<close>
  holds for the converters of \<open>round_trip_ok\<close> (lemma \<open>array_round_trip\<close>), and
  fails for a map with record values: \<^verbatim>\<open>to_arrow_array\<close> calls \<^verbatim>\<open>to_arrow\<close> on each
  dict, and the engine rejects the dataclass instance inside.  \<^verbatim>\<open>from_arrow_array\<close>
  does decode the array such a sequence should be encoded to.
\<close>

theorem array_round_trip_record_in_map_fails:
  "derive_arrow_marshaller
     (generic_alias (class_origin ''dict'' False True)
        [builtin_type py_str, dataclass ''Inner'' [PyField ''x'' (builtin_type py_int) None]])
     = Inr (MapArrowMarshaller string (StructArrowMarshaller ''Inner'' [(''x'', int64)])) \<and>
   conforms (MapArrowMarshaller string (StructArrowMarshaller ''Inner'' [(''x'', int64)]))
     (PDict [(PStr ''a'', PObj ''Inner'' [(''x'', PInt 1)])]) \<and>
   to_arrow_array (MapArrowMarshaller string (StructArrowMarshaller ''Inner'' [(''x'', int64)]))
     [PDict [(PStr ''a'', PObj ''Inner'' [(''x'', PInt 1)])]]
     = Inl ArrowError \<and>
   from_arrow_array (MapArrowMarshaller string (StructArrowMarshaller ''Inner'' [(''x'', int64)]))
     (Array (pa_map pa_string (pa_struct [(''x'', pa_int64)])) [AMap [(AStr ''a'', AStruct [AInt 1])]])
     = Inr [PDict [(PStr ''a'', PObj ''Inner'' [(''x'', PInt 1)])]]"
  by (simp add: string_def int64_def pa_scalar_def convert_entry_def int_range_def
        dataclass_init_def as_py_def array_iter_def map_from_arrow_indexed_def)

end
